theory Spec2Isabelle
  imports Complex_Main "HOL-Library.Stream" "HOL-Library.Multiset"
begin

section \<open>Flappy Bird: the evolutionary simulation and the playable game\<close>

text \<open>
  The repository holds two programs: \<^verbatim>\<open>flappy_ai.py\<close>, in which a population of birds
  steered by a one-neuron network is evolved by a genetic algorithm, and
  \<^verbatim>\<open>flappy_playable.py\<close>, in which a human plays against three such birds.

  Conventions of the embedding.
  \<^item> Python floats are read as real numbers: rounding is not modelled.
  \<^item> The process-wide generator of the \<^verbatim>\<open>random\<close> module is an explicit value that every
    drawing function takes and returns.
  \<^item> A brain is a Python dict holding a reference to a list of weights; both are mutable
    objects, \<^verbatim>\<open>mutate_brain\<close> writes into them in place and \<^verbatim>\<open>copy_brain\<close> allocates new
    ones. Brains therefore live in an explicit heap and a bird holds an address.
  \<^item> An uncaught exception is a value \<open>Inl e\<close>.
  \<^item> Drawing on the screen, the clock and console output change nothing the program
    reads again; they are left out.
\<close>

datatype exn = IndexError | TypeError

subsection \<open>The random module\<close>

text \<open>
  The generator is a source of floats in the unit interval (\<^verbatim>\<open>random.random()\<close>) and of
  integers, from which \<^verbatim>\<open>random.sample\<close> takes its indices.
\<close>

record rng =
  floats :: "real stream"
  ints :: "nat stream"

definition rnd_random :: "rng \<Rightarrow> real \<times> rng" where
  "rnd_random g = (shd (floats g), g\<lparr>floats := stl (floats g)\<rparr>)"

text \<open>\<^verbatim>\<open>random.uniform(a, b)\<close> is \<^verbatim>\<open>a + (b - a) * random()\<close>.\<close>

definition rnd_uniform :: "real \<Rightarrow> real \<Rightarrow> rng \<Rightarrow> real \<times> rng" where
  "rnd_uniform a b g = (case rnd_random g of (u, g') \<Rightarrow> (a + (b - a) * u, g'))"

definition rnd_randbelow :: "nat \<Rightarrow> rng \<Rightarrow> nat \<times> rng" where
  "rnd_randbelow n g = (shd (ints g) mod n, g\<lparr>ints := stl (ints g)\<rparr>)"

text \<open>
  \<^verbatim>\<open>random.sample(population, k)\<close> for a small population: \<open>k\<close> times, an index below the
  number of elements still in the pool is drawn, the element there is taken and the last
  element of the pool is moved into its place.
\<close>

fun sample_pool :: "'a list \<Rightarrow> nat \<Rightarrow> nat \<Rightarrow> rng \<Rightarrow> 'a list \<times> rng" where
  "sample_pool pool n 0 g = ([], g)"
| "sample_pool pool n (Suc k) g =
     (case rnd_randbelow n g of (j, g1) \<Rightarrow>
      case sample_pool (pool[j := pool ! (n - 1)]) (n - 1) k g1 of (rest, g2) \<Rightarrow>
        (pool ! j # rest, g2))"

definition rnd_sample :: "'a list \<Rightarrow> nat \<Rightarrow> rng \<Rightarrow> 'a list \<times> rng" where
  "rnd_sample population k g = sample_pool population (length population) k g"

text \<open>The list comprehension \<^verbatim>\<open>[random.uniform(a, b) for _ in range(n)]\<close>.\<close>

fun uniform_list :: "nat \<Rightarrow> real \<Rightarrow> real \<Rightarrow> rng \<Rightarrow> real list \<times> rng" where
  "uniform_list 0 a b g = ([], g)"
| "uniform_list (Suc n) a b g =
     (case rnd_uniform a b g of (u, g1) \<Rightarrow>
      case uniform_list n a b g1 of (us, g2) \<Rightarrow> (u # us, g2))"

subsection \<open>The heap of brains\<close>

text \<open>
  Two arenas: the dicts \<^verbatim>\<open>{"weights": ..., "bias": ...}\<close>, each a reference to a weights
  list and a float, and the weights lists. An address is an index into its arena and a new
  object is appended, so that an address handed out once is never handed out again.
\<close>

type_synonym addr = nat

record heap =
  dicts :: "(addr \<times> real) list"
  lists :: "real list list"

definition alloc_list :: "real list \<Rightarrow> heap \<Rightarrow> addr \<times> heap" where
  "alloc_list ws h = (length (lists h), h\<lparr>lists := lists h @ [ws]\<rparr>)"

definition alloc_dict :: "addr \<Rightarrow> real \<Rightarrow> heap \<Rightarrow> addr \<times> heap" where
  "alloc_dict wa b h = (length (dicts h), h\<lparr>dicts := dicts h @ [(wa, b)]\<rparr>)"

text \<open>\<^verbatim>\<open>brain["weights"][i]\<close> and \<^verbatim>\<open>brain["weights"][i] = v\<close> for the dict at \<open>a\<close>.\<close>

definition get_weight :: "heap \<Rightarrow> addr \<Rightarrow> nat \<Rightarrow> real" where
  "get_weight h a i = lists h ! fst (dicts h ! a) ! i"

definition set_weight :: "heap \<Rightarrow> addr \<Rightarrow> nat \<Rightarrow> real \<Rightarrow> heap" where
  "set_weight h a i v =
     (let wa = fst (dicts h ! a) in h\<lparr>lists := (lists h)[wa := (lists h ! wa)[i := v]]\<rparr>)"

text \<open>\<^verbatim>\<open>brain["bias"]\<close> and \<^verbatim>\<open>brain["bias"] = v\<close>.\<close>

definition get_bias :: "heap \<Rightarrow> addr \<Rightarrow> real" where
  "get_bias h a = snd (dicts h ! a)"

definition set_bias :: "heap \<Rightarrow> addr \<Rightarrow> real \<Rightarrow> heap" where
  "set_bias h a v = h\<lparr>dicts := (dicts h)[a := (fst (dicts h ! a), v)]\<rparr>"

text \<open>
  What a reference denotes: the weights and the bias of the brain at \<open>a\<close>, when \<open>a\<close> and
  the weights reference stored there are addresses of allocated objects. Every reference
  the program holds is one, since Python has no dangling references.
\<close>

definition brain_at :: "heap \<Rightarrow> addr \<Rightarrow> (real list \<times> real) option" where
  "brain_at h a =
     (if a < length (dicts h) \<and> fst (dicts h ! a) < length (lists h)
      then Some (lists h ! fst (dicts h ! a), snd (dicts h ! a)) else None)"

subsection \<open>flappy_ai.py: Bird\<close>

record bird =
  bird_x :: real
  bird_y :: real
  velocity :: real
  alive :: bool
  score :: int
  fitness :: real
  brain :: addr

definition create_random_brain :: "heap \<Rightarrow> rng \<Rightarrow> addr \<times> heap \<times> rng" where
  "create_random_brain h g =
     (case uniform_list 4 (-2.0) 2.0 g of (ws, g1) \<Rightarrow>
      case alloc_list ws h of (wa, h1) \<Rightarrow>
      case rnd_uniform (-1.0) 1.0 g1 of (b, g2) \<Rightarrow>
      case alloc_dict wa b h1 of (a, h2) \<Rightarrow> (a, h2, g2))"

definition Bird_init :: "heap \<Rightarrow> rng \<Rightarrow> bird \<times> heap \<times> rng" where
  "Bird_init h g =
     (case create_random_brain h g of (a, h', g') \<Rightarrow>
        (\<lparr>bird_x = 100.0, bird_y = 300.0, velocity = 0.0, alive = True, score = 0,
          fitness = 0.0, brain = a\<rparr>, h', g'))"

subsection \<open>flappy_ai.py: Pipe\<close>

record pipe =
  pipe_x :: real
  width :: real
  top_height :: real
  bottom_height :: real

definition Pipe_reset_height :: "pipe \<Rightarrow> rng \<Rightarrow> pipe \<times> rng" where
  "Pipe_reset_height p g =
     (case rnd_uniform 150 450 g of (gap_center, g') \<Rightarrow>
      let gap_size = (200::int) in
        (p\<lparr>top_height := gap_center - real_of_int (gap_size div 2),
           bottom_height := gap_center + real_of_int (gap_size div 2)\<rparr>, g'))"

definition Pipe_init :: "real \<Rightarrow> rng \<Rightarrow> pipe \<times> rng" where
  "Pipe_init x0 g =
     Pipe_reset_height \<lparr>pipe_x = x0, width = 80, top_height = 0, bottom_height = 0\<rparr> g"

definition Pipe_update :: "pipe \<Rightarrow> rng \<Rightarrow> pipe \<times> rng" where
  "Pipe_update p g =
     (let p1 = p\<lparr>pipe_x := pipe_x p - 2.5\<rparr> in
      if pipe_x p1 < - width p1
      then (case rnd_uniform 0 100 g of (u, g1) \<Rightarrow>
              Pipe_reset_height (p1\<lparr>pipe_x := 800 + u\<rparr>) g1)
      else (p1, g))"

definition Pipe_collides_with :: "pipe \<Rightarrow> bird \<Rightarrow> bool" where
  "Pipe_collides_with p b =
     (let bird_radius = 12 in
      if bird_x b + bird_radius > pipe_x p \<and> bird_x b - bird_radius < pipe_x p + width p
      then (if bird_y b - bird_radius < top_height p \<or> bird_y b + bird_radius > bottom_height p
            then True else False)
      else False)"

subsection \<open>flappy_ai.py: Bird.think, Bird.update, Bird.flap, Bird.copy_brain\<close>

text \<open>
  The search for the closest pipe ahead. \<open>min_distance\<close> starts at \<^verbatim>\<open>float('inf')\<close>,
  which is \<open>None\<close> here: every distance is below it.
\<close>

fun closest_loop :: "bird \<Rightarrow> pipe list \<Rightarrow> pipe option \<times> real option \<Rightarrow> pipe option \<times> real option"
  where
  "closest_loop b [] acc = acc"
| "closest_loop b (p # ps) (closest_pipe, min_distance) =
     (if pipe_x p > bird_x b - 50 then
        (let distance = \<bar>pipe_x p - bird_x b\<bar> in
         if (case min_distance of None \<Rightarrow> True | Some m \<Rightarrow> distance < m)
         then closest_loop b ps (Some p, Some distance)
         else closest_loop b ps (closest_pipe, min_distance))
      else closest_loop b ps (closest_pipe, min_distance))"

text \<open>\<^verbatim>\<open>pipes[0]\<close>, which raises on the empty list.\<close>

definition first_pipe :: "'a list \<Rightarrow> exn + 'a" where
  "first_pipe ps = (case ps of [] \<Rightarrow> Inl IndexError | p # _ \<Rightarrow> Inr p)"

text \<open>\<^verbatim>\<open>for i in range(4): output += inputs[i] * self.brain["weights"][i]\<close>\<close>

fun sum_loop :: "real list \<Rightarrow> real list \<Rightarrow> nat list \<Rightarrow> real \<Rightarrow> exn + real" where
  "sum_loop inputs ws [] output = Inr output"
| "sum_loop inputs ws (i # is) output =
     (if i < length inputs \<and> i < length ws
      then sum_loop inputs ws is (output + inputs ! i * ws ! i)
      else Inl IndexError)"

definition Bird_think :: "heap \<Rightarrow> bird \<Rightarrow> pipe list \<Rightarrow> exn + bool" where
  "Bird_think h b ps =
     (case (case fst (closest_loop b ps (None, None)) of
              None \<Rightarrow> first_pipe ps
            | Some p \<Rightarrow> Inr p) of
        Inl e \<Rightarrow> Inl e
      | Inr closest_pipe \<Rightarrow>
          (let inputs = [bird_y b / 600.0,
                         velocity b / 10.0,
                         (pipe_x closest_pipe - bird_x b) / 400.0,
                         ((top_height closest_pipe + bottom_height closest_pipe) / 2) / 600.0]
           in case sum_loop inputs (lists h ! fst (dicts h ! brain b)) [0..<4]
                     (get_bias h (brain b)) of
                Inl e \<Rightarrow> Inl e
              | Inr output \<Rightarrow>
                  (let activated = 1.0 / (1.0 + exp (- max (-500) (min 500 output)))
                   in Inr (activated > 0.5))))"

definition Bird_update :: "bird \<Rightarrow> bird" where
  "Bird_update b =
     (let b1 = b\<lparr>velocity := velocity b + 0.4\<rparr>;
          b2 = b1\<lparr>bird_y := bird_y b1 + velocity b1\<rparr>
      in if bird_y b2 \<le> 0 \<or> bird_y b2 \<ge> 580 then b2\<lparr>alive := False\<rparr> else b2)"

definition Bird_flap :: "bird \<Rightarrow> bird" where
  "Bird_flap b = b\<lparr>velocity := -7.0\<rparr>"

definition Bird_copy_brain :: "heap \<Rightarrow> bird \<Rightarrow> addr \<times> heap" where
  "Bird_copy_brain h b =
     (case alloc_list (lists h ! fst (dicts h ! brain b)) h of (wa, h1) \<Rightarrow>
        alloc_dict wa (get_bias h (brain b)) h1)"

subsection \<open>flappy_ai.py: FlappyAI\<close>

record flappy_ai =
  population_size :: nat
  generation :: nat
  best_score :: real
  birds :: "bird list"
  pipes :: "pipe list"

definition create_pipes :: "flappy_ai \<Rightarrow> rng \<Rightarrow> flappy_ai \<times> rng" where
  "create_pipes ai g =
     (case Pipe_init 400 g of (p1, g1) \<Rightarrow>
      case Pipe_init 600 g1 of (p2, g2) \<Rightarrow>
      case Pipe_init 800 g2 of (p3, g3) \<Rightarrow> (ai\<lparr>pipes := [p1, p2, p3]\<rparr>, g3))"

text \<open>\<^verbatim>\<open>[Bird() for _ in range(n)]\<close>\<close>

fun bird_list :: "nat \<Rightarrow> heap \<Rightarrow> rng \<Rightarrow> bird list \<times> heap \<times> rng" where
  "bird_list 0 h g = ([], h, g)"
| "bird_list (Suc n) h g =
     (case Bird_init h g of (b, h1, g1) \<Rightarrow>
      case bird_list n h1 g1 of (bs, h2, g2) \<Rightarrow> (b # bs, h2, g2))"

definition create_population :: "flappy_ai \<Rightarrow> heap \<Rightarrow> rng \<Rightarrow> flappy_ai \<times> heap \<times> rng" where
  "create_population ai h g =
     (case bird_list (population_size ai) h g of (bs, h', g') \<Rightarrow> (ai\<lparr>birds := bs\<rparr>, h', g'))"

subsubsection \<open>run_generation\<close>

text \<open>The reset of a bird at the start of a generation.\<close>

definition reset_bird :: "bird \<Rightarrow> bird" where
  "reset_bird b =
     b\<lparr>bird_x := 100.0, bird_y := 300.0, velocity := 0.0, alive := True, score := 0,
       fitness := 0.0\<rparr>"

text \<open>\<^verbatim>\<open>for pipe in self.pipes: pipe.update()\<close>\<close>

fun pipes_loop :: "pipe list \<Rightarrow> rng \<Rightarrow> pipe list \<times> rng" where
  "pipes_loop [] g = ([], g)"
| "pipes_loop (p # ps) g =
     (case Pipe_update p g of (p', g1) \<Rightarrow>
      case pipes_loop ps g1 of (ps', g2) \<Rightarrow> (p' # ps', g2))"

text \<open>
  The inner loop over the pipes: the first pipe that collides kills the bird and fixes its
  fitness, and the loop is left.
\<close>

fun collide_loop :: "pipe list \<Rightarrow> nat \<Rightarrow> bird \<Rightarrow> bird" where
  "collide_loop [] frame_count b = b"
| "collide_loop (p # ps) frame_count b =
     (if Pipe_collides_with p b
      then b\<lparr>alive := False, fitness := real_of_int (score b) + real frame_count * 0.1\<rparr>
      else collide_loop ps frame_count b)"

text \<open>The body of \<^verbatim>\<open>for bird in alive_birds\<close>.\<close>

definition bird_frame :: "heap \<Rightarrow> pipe list \<Rightarrow> nat \<Rightarrow> bird \<Rightarrow> exn + bird" where
  "bird_frame h ps frame_count b =
     (case Bird_think h b ps of
        Inl e \<Rightarrow> Inl e
      | Inr decision \<Rightarrow>
          (let b1 = (if decision then Bird_flap b else b);
               b2 = Bird_update b1
           in if \<not> alive b2
              then Inr (b2\<lparr>fitness := real_of_int (score b2) + real frame_count * 0.1\<rparr>)
              else (let b3 = collide_loop ps frame_count b2
                    in if alive b3 then Inr (b3\<lparr>score := score b3 + 1\<rparr>) else Inr b3)))"

text \<open>
  \<^verbatim>\<open>alive_birds\<close> holds the birds of \<^verbatim>\<open>self.birds\<close> that are alive when the frame starts,
  the same objects, and the loop over it changes them in place. A bird changes nothing
  but itself, so the loop is a pass over \<^verbatim>\<open>self.birds\<close> that leaves the dead ones alone.
\<close>

fun birds_loop :: "heap \<Rightarrow> pipe list \<Rightarrow> nat \<Rightarrow> bird list \<Rightarrow> exn + bird list" where
  "birds_loop h ps frame_count [] = Inr []"
| "birds_loop h ps frame_count (b # bs) =
     (case (if alive b then bird_frame h ps frame_count b else Inr b) of
        Inl e \<Rightarrow> Inl e
      | Inr b' \<Rightarrow>
          (case birds_loop h ps frame_count bs of
             Inl e \<Rightarrow> Inl e
           | Inr bs' \<Rightarrow> Inr (b' # bs')))"

definition max_frames :: nat where
  "max_frames = 1000"

text \<open>
  The frame loop. \<open>quit k\<close> says whether the event queue read in frame \<open>k\<close> holds a QUIT
  event or an ESCAPE key press, on which the source returns \<^verbatim>\<open>None\<close> at once. The loop
  changes the birds and the pipes in place, so both are part of the result either way, with
  the frame count the loop ends with.
\<close>

datatype outcome = Aborted | Completed

function frames_loop ::
  "(nat \<Rightarrow> bool) \<Rightarrow> heap \<Rightarrow> nat \<Rightarrow> bird list \<Rightarrow> pipe list \<Rightarrow> rng
     \<Rightarrow> exn + (outcome \<times> bird list \<times> pipe list \<times> nat \<times> rng)"
  where
  "frames_loop quit h frame_count bs ps g =
     (if frame_count < max_frames then
        (if quit frame_count then Inr (Aborted, bs, ps, frame_count, g)
         else if filter alive bs = [] then Inr (Completed, bs, ps, frame_count, g)
         else (case pipes_loop ps g of (ps', g') \<Rightarrow>
                 (case birds_loop h ps' frame_count bs of
                    Inl e \<Rightarrow> Inl e
                  | Inr bs' \<Rightarrow> frames_loop quit h (frame_count + 1) bs' ps' g')))
      else Inr (Completed, bs, ps, frame_count, g))"
  by pat_completeness auto
termination
  by (relation "measure (\<lambda>(quit, h, frame_count, bs, ps, g). max_frames - frame_count)") auto

text \<open>The last loop of \<^verbatim>\<open>run_generation\<close>: the fitness of the birds still alive.\<close>

definition final_fitness :: "nat \<Rightarrow> bird \<Rightarrow> bird" where
  "final_fitness frame_count b =
     (if alive b then b\<lparr>fitness := real_of_int (score b) + real frame_count * 0.1\<rparr> else b)"

text \<open>
  The result is the returned value, \<open>None\<close> or the list of fitness values, with the object
  and the generator as the call leaves them.
\<close>

definition run_generation ::
  "(nat \<Rightarrow> bool) \<Rightarrow> flappy_ai \<Rightarrow> heap \<Rightarrow> rng \<Rightarrow> exn + (real list option \<times> flappy_ai \<times> rng)"
  where
  "run_generation quit ai h g =
     (let ai1 = ai\<lparr>birds := map reset_bird (birds ai)\<rparr> in
      case create_pipes ai1 g of (ai2, g1) \<Rightarrow>
        (case frames_loop quit h 0 (birds ai2) (pipes ai2) g1 of
           Inl e \<Rightarrow> Inl e
         | Inr (Aborted, bs, ps, frame_count, g2) \<Rightarrow>
             Inr (None, ai2\<lparr>birds := bs, pipes := ps\<rparr>, g2)
         | Inr (Completed, bs, ps, frame_count, g2) \<Rightarrow>
             (let bs' = map (final_fitness frame_count) bs
              in Inr (Some (map fitness bs'), ai2\<lparr>birds := bs', pipes := ps\<rparr>, g2))))"

subsubsection \<open>Selection, mutation and the next generation\<close>

text \<open>
  \<^verbatim>\<open>list.sort(key=lambda x: x[1], reverse=True)\<close>: descending in the second component,
  and stable, as Python's sort is also when reversed.
\<close>

definition sort_desc :: "('a \<times> real) list \<Rightarrow> ('a \<times> real) list" where
  "sort_desc ps = sort_key (\<lambda>p. - snd p) ps"

definition tournament_selection :: "(bird \<times> real) list \<Rightarrow> rng \<Rightarrow> exn + (bird \<times> rng)" where
  "tournament_selection bird_fitness_pairs g =
     (let tournament_size = 3 in
      case rnd_sample bird_fitness_pairs (min tournament_size (length bird_fitness_pairs)) g of
        (tournament, g') \<Rightarrow>
          (case sort_desc tournament of
             [] \<Rightarrow> Inl IndexError
           | t # _ \<Rightarrow> Inr (fst t, g')))"

definition mutation_rate :: real where
  "mutation_rate = 0.15"

definition mutation_strength :: real where
  "mutation_strength = 0.3"

text \<open>The loop over \<^verbatim>\<open>range(len(brain["weights"]))\<close>, writing into the list in place.\<close>

fun mutate_weights :: "addr \<Rightarrow> nat list \<Rightarrow> heap \<Rightarrow> rng \<Rightarrow> heap \<times> rng" where
  "mutate_weights a [] h g = (h, g)"
| "mutate_weights a (i # is) h g =
     (case rnd_random g of (r, g1) \<Rightarrow>
      if r < mutation_rate then
        (case rnd_uniform (- mutation_strength) mutation_strength g1 of (d, g2) \<Rightarrow>
         let h1 = set_weight h a i (get_weight h a i + d);
             h2 = set_weight h1 a i (max (-3.0) (min 3.0 (get_weight h1 a i)))
         in mutate_weights a is h2 g2)
      else mutate_weights a is h g1)"

definition mutate_brain :: "addr \<Rightarrow> heap \<Rightarrow> rng \<Rightarrow> heap \<times> rng" where
  "mutate_brain a h g =
     (case mutate_weights a [0..<length (lists h ! fst (dicts h ! a))] h g of (h1, g1) \<Rightarrow>
      case rnd_random g1 of (r, g2) \<Rightarrow>
      if r < mutation_rate then
        (case rnd_uniform (- mutation_strength) mutation_strength g2 of (d, g3) \<Rightarrow>
         let h2 = set_bias h1 a (get_bias h1 a + d);
             h3 = set_bias h2 a (max (-3.0) (min 3.0 (get_bias h2 a)))
         in (h3, g3))
      else (h1, g2))"

text \<open>\<^verbatim>\<open>for i in range(min(3, len(bird_fitness_pairs)))\<close>: the elites.\<close>

fun elites_loop ::
  "(bird \<times> real) list \<Rightarrow> nat list \<Rightarrow> bird list \<Rightarrow> heap \<Rightarrow> rng \<Rightarrow> bird list \<times> heap \<times> rng"
  where
  "elites_loop bird_fitness_pairs [] new_birds h g = (new_birds, h, g)"
| "elites_loop bird_fitness_pairs (i # is) new_birds h g =
     (let elite_bird = fst (bird_fitness_pairs ! i) in
      case Bird_init h g of (new_bird, h1, g1) \<Rightarrow>
      case Bird_copy_brain h1 elite_bird of (a, h2) \<Rightarrow>
        elites_loop bird_fitness_pairs is (new_birds @ [new_bird\<lparr>brain := a\<rparr>]) h2 g1)"

text \<open>\<^verbatim>\<open>while len(new_birds) < self.population_size\<close>: the mutated offspring.\<close>

function fill_loop ::
  "nat \<Rightarrow> (bird \<times> real) list \<Rightarrow> bird list \<Rightarrow> heap \<Rightarrow> rng \<Rightarrow> exn + (bird list \<times> heap \<times> rng)"
  where
  "fill_loop n bird_fitness_pairs new_birds h g =
     (if length new_birds < n then
        (case tournament_selection bird_fitness_pairs g of
           Inl e \<Rightarrow> Inl e
         | Inr (parent, g1) \<Rightarrow>
             (case Bird_init h g1 of (child, h1, g2) \<Rightarrow>
              case Bird_copy_brain h1 parent of (a, h2) \<Rightarrow>
              case mutate_brain a h2 g2 of (h3, g3) \<Rightarrow>
                fill_loop n bird_fitness_pairs (new_birds @ [child\<lparr>brain := a\<rparr>]) h3 g3))
      else Inr (new_birds, h, g))"
  by pat_completeness auto
termination
  by (relation "measure (\<lambda>(n, bird_fitness_pairs, new_birds, h, g). n - length new_birds)") auto

definition create_next_generation ::
  "flappy_ai \<Rightarrow> real list \<Rightarrow> heap \<Rightarrow> rng \<Rightarrow> exn + (flappy_ai \<times> heap \<times> rng)" where
  "create_next_generation ai fitness_scores h g =
     (let bird_fitness_pairs = sort_desc (zip (birds ai) fitness_scores) in
      case elites_loop bird_fitness_pairs [0..<min 3 (length bird_fitness_pairs)] [] h g of
        (new_birds, h1, g1) \<Rightarrow>
          (case fill_loop (population_size ai) bird_fitness_pairs new_birds h1 g1 of
             Inl e \<Rightarrow> Inl e
           | Inr (new_birds', h2, g2) \<Rightarrow> Inr (ai\<lparr>birds := new_birds'\<rparr>, h2, g2)))"

subsection \<open>flappy_playable.py: Bird and Pipe\<close>

text \<open>
  In the game no brain is copied or written after its creation, so a brain is a value
  here. The human's bird has none (\<^verbatim>\<open>None\<close>). The colour of a bird is only drawn.
\<close>

record pbrain =
  pweights :: "real list"
  pbias :: real

record pbird =
  pb_x :: real
  pb_y :: real
  pb_velocity :: real
  pb_alive :: bool
  pb_score :: int
  pb_is_ai :: bool
  pb_brain :: "pbrain option"

definition pb_create_random_brain :: "rng \<Rightarrow> pbrain \<times> rng" where
  "pb_create_random_brain g =
     (case uniform_list 4 (-1.5) 1.5 g of (ws, g1) \<Rightarrow>
      case rnd_uniform (-0.5) 0.5 g1 of (b, g2) \<Rightarrow> (\<lparr>pweights = ws, pbias = b\<rparr>, g2))"

definition PBird_init :: "real \<Rightarrow> real \<Rightarrow> bool \<Rightarrow> rng \<Rightarrow> pbird \<times> rng" where
  "PBird_init x0 y0 is_ai g =
     (case (if is_ai then (case pb_create_random_brain g of (br, g') \<Rightarrow> (Some br, g'))
            else (None, g)) of
        (br, g') \<Rightarrow>
          (\<lparr>pb_x = x0, pb_y = y0, pb_velocity = 0.0, pb_alive = True, pb_score = 0,
            pb_is_ai = is_ai, pb_brain = br\<rparr>, g'))"

record ppipe =
  pp_x :: real
  pp_width :: real
  pp_speed :: real
  pp_top_height :: real
  pp_bottom_height :: real

definition PPipe_reset_height :: "ppipe \<Rightarrow> rng \<Rightarrow> ppipe \<times> rng" where
  "PPipe_reset_height p g =
     (case rnd_uniform 180 420 g of (gap_center, g') \<Rightarrow>
      let gap_size = (180::int) in
        (p\<lparr>pp_top_height := gap_center - real_of_int (gap_size div 2),
           pp_bottom_height := gap_center + real_of_int (gap_size div 2)\<rparr>, g'))"

definition PPipe_init :: "real \<Rightarrow> rng \<Rightarrow> ppipe \<times> rng" where
  "PPipe_init x0 g =
     PPipe_reset_height
       \<lparr>pp_x = x0, pp_width = 80, pp_speed = 2.0, pp_top_height = 0, pp_bottom_height = 0\<rparr> g"

definition PPipe_update :: "ppipe \<Rightarrow> ppipe" where
  "PPipe_update p = p\<lparr>pp_x := pp_x p - pp_speed p\<rparr>"

definition PPipe_collides_with :: "ppipe \<Rightarrow> pbird \<Rightarrow> bool" where
  "PPipe_collides_with p b =
     (let bird_radius = 12 in
      if pb_x b + bird_radius > pp_x p \<and> pb_x b - bird_radius < pp_x p + pp_width p
      then (if pb_y b - bird_radius < pp_top_height p
               \<or> pb_y b + bird_radius > pp_bottom_height p
            then True else False)
      else False)"

definition PPipe_passed_by :: "ppipe \<Rightarrow> pbird \<Rightarrow> bool" where
  "PPipe_passed_by p b = (pb_x b > pp_x p + pp_width p)"

fun pb_closest_loop ::
  "pbird \<Rightarrow> ppipe list \<Rightarrow> ppipe option \<times> real option \<Rightarrow> ppipe option \<times> real option" where
  "pb_closest_loop b [] acc = acc"
| "pb_closest_loop b (p # ps) (closest_pipe, min_distance) =
     (if pp_x p > pb_x b - 50 then
        (let distance = \<bar>pp_x p - pb_x b\<bar> in
         if (case min_distance of None \<Rightarrow> True | Some m \<Rightarrow> distance < m)
         then pb_closest_loop b ps (Some p, Some distance)
         else pb_closest_loop b ps (closest_pipe, min_distance))
      else pb_closest_loop b ps (closest_pipe, min_distance))"

text \<open>Subscripting \<^verbatim>\<open>self.brain\<close> raises a TypeError when it is \<^verbatim>\<open>None\<close>.\<close>

definition PBird_think :: "pbird \<Rightarrow> ppipe list \<Rightarrow> exn + bool" where
  "PBird_think b ps =
     (if \<not> pb_is_ai b then Inr False
      else
        (case (case fst (pb_closest_loop b ps (None, None)) of
                 None \<Rightarrow> first_pipe ps
               | Some p \<Rightarrow> Inr p) of
           Inl e \<Rightarrow> Inl e
         | Inr closest_pipe \<Rightarrow>
             (let inputs = [pb_y b / 600.0,
                            pb_velocity b / 10.0,
                            (pp_x closest_pipe - pb_x b) / 400.0,
                            ((pp_top_height closest_pipe + pp_bottom_height closest_pipe) / 2)
                              / 600.0]
              in case pb_brain b of
                   None \<Rightarrow> Inl TypeError
                 | Some br \<Rightarrow>
                     (case sum_loop inputs (pweights br) [0..<4] (pbias br) of
                        Inl e \<Rightarrow> Inl e
                      | Inr output \<Rightarrow>
                          (let activated = 1.0 / (1.0 + exp (- max (-500) (min 500 output)))
                           in Inr (activated > 0.5))))))"

definition PBird_update :: "pbird \<Rightarrow> pbird" where
  "PBird_update b =
     (let b1 = b\<lparr>pb_velocity := pb_velocity b + 0.4\<rparr>;
          b2 = b1\<lparr>pb_y := pb_y b1 + pb_velocity b1\<rparr>
      in if pb_y b2 \<le> 0 \<or> pb_y b2 \<ge> 580 then b2\<lparr>pb_alive := False\<rparr> else b2)"

definition PBird_flap :: "pbird \<Rightarrow> pbird" where
  "PBird_flap b = (if pb_alive b then b\<lparr>pb_velocity := -7.0\<rparr> else b)"

subsection \<open>flappy_playable.py: FlappyGame\<close>

text \<open>
  \<^verbatim>\<open>all_birds\<close> is \<^verbatim>\<open>[self.human] + self.ai_birds\<close> and holds the same objects: the human's
  bird is its element 0 and the birds of the program are the elements after it.
\<close>

record game =
  game_pipes :: "ppipe list"
  pipe_timer :: nat
  pipe_spacing :: real
  game_over :: bool
  winner :: "(int \<times> string) option"
  all_birds :: "pbird list"

definition create_initial_pipes :: "game \<Rightarrow> rng \<Rightarrow> game \<times> rng" where
  "create_initial_pipes gm g =
     (case PPipe_init 400 g of (p1, g1) \<Rightarrow>
      case PPipe_init 600 g1 of (p2, g2) \<Rightarrow>
      case PPipe_init 800 g2 of (p3, g3) \<Rightarrow> (gm\<lparr>game_pipes := [p1, p2, p3]\<rparr>, g3))"

text \<open>The four birds of \<^verbatim>\<open>__init__\<close> and of \<^verbatim>\<open>restart_game\<close>.\<close>

definition create_players :: "rng \<Rightarrow> pbird list \<times> rng" where
  "create_players g =
     (case PBird_init 100 250 False g of (human, g0) \<Rightarrow>
      case PBird_init 100 300 True g0 of (a1, g1) \<Rightarrow>
      case PBird_init 100 350 True g1 of (a2, g2) \<Rightarrow>
      case PBird_init 100 200 True g2 of (a3, g3) \<Rightarrow> ([human] @ [a1, a2, a3], g3))"

definition FlappyGame_init :: "rng \<Rightarrow> game \<times> rng" where
  "FlappyGame_init g =
     (case create_players g of (bs, g1) \<Rightarrow>
        create_initial_pipes
          \<lparr>game_pipes = [], pipe_timer = 0, pipe_spacing = 200, game_over = False,
            winner = None, all_birds = bs\<rparr> g1)"

definition restart_game :: "game \<Rightarrow> rng \<Rightarrow> game \<times> rng" where
  "restart_game gm g =
     (case create_players g of (bs, g1) \<Rightarrow>
        create_initial_pipes (gm\<lparr>game_over := False, winner := None, all_birds := bs\<rparr>) g1)"

definition update_pipes :: "game \<Rightarrow> rng \<Rightarrow> game \<times> rng" where
  "update_pipes gm g =
     (let ps1 = map PPipe_update (game_pipes gm);
          ps2 = filter (\<lambda>p. pp_x p > - pp_width p) ps1
      in if length ps2 < 4 \<and> (ps2 = [] \<or> pp_x (last ps2) < 600)
         then (let new_x = (if ps2 \<noteq> [] then pp_x (last ps2) + pipe_spacing gm else 400)
               in case PPipe_init new_x g of (p, g') \<Rightarrow> (gm\<lparr>game_pipes := ps2 @ [p]\<rparr>, g'))
         else (gm\<lparr>game_pipes := ps2\<rparr>, g))"

text \<open>The loop that checks the pipes for a collision, left at the first one.\<close>

fun pb_collide_loop :: "ppipe list \<Rightarrow> pbird \<Rightarrow> pbird" where
  "pb_collide_loop [] b = b"
| "pb_collide_loop (p # ps) b =
     (if PPipe_collides_with p b then b\<lparr>pb_alive := False\<rparr> else pb_collide_loop ps b)"

text \<open>The loop under \<^verbatim>\<open># Update score when passing pipes\<close>, left at the first pipe that counts.\<close>

fun score_loop :: "ppipe list \<Rightarrow> pbird \<Rightarrow> pbird" where
  "score_loop [] b = b"
| "score_loop (p # ps) b =
     (if PPipe_passed_by p b \<and> pp_x p + pp_width p < pb_x b - 5
      then b\<lparr>pb_score := pb_score b + 1\<rparr>
      else score_loop ps b)"

text \<open>The body of \<^verbatim>\<open>for bird in self.all_birds\<close> for a bird that is alive.\<close>

definition pbird_frame :: "ppipe list \<Rightarrow> pbird \<Rightarrow> exn + pbird" where
  "pbird_frame ps b =
     (case (if pb_is_ai b then PBird_think b ps else Inr False) of
        Inl e \<Rightarrow> Inl e
      | Inr decision \<Rightarrow>
          (let b1 = (if decision then PBird_flap b else b);
               b2 = PBird_update b1;
               b3 = pb_collide_loop ps b2
           in if pb_alive b3 then Inr (score_loop ps b3) else Inr b3))"

fun pbirds_loop :: "ppipe list \<Rightarrow> pbird list \<Rightarrow> nat \<Rightarrow> exn + (pbird list \<times> nat)" where
  "pbirds_loop ps [] alive_count = Inr ([], alive_count)"
| "pbirds_loop ps (b # bs) alive_count =
     (if \<not> pb_alive b
      then (case pbirds_loop ps bs alive_count of
              Inl e \<Rightarrow> Inl e
            | Inr (bs', n) \<Rightarrow> Inr (b # bs', n))
      else (case pbird_frame ps b of
              Inl e \<Rightarrow> Inl e
            | Inr b' \<Rightarrow>
                (case pbirds_loop ps bs (alive_count + 1) of
                   Inl e \<Rightarrow> Inl e
                 | Inr (bs', n) \<Rightarrow> Inr (b' # bs', n))))"

text \<open>
  The name of the bird at position \<open>i\<close> of \<^verbatim>\<open>all_birds\<close>, which the source finds by
  comparing objects.
\<close>

definition bird_name :: "nat \<Rightarrow> string" where
  "bird_name i =
     (if i = 0 then ''Human''
      else if i - 1 < 3 then ''AI-'' @ [''Blue'', ''Green'', ''Yellow''] ! (i - 1)
      else ''AI-Unknown'')"

definition end_game :: "game \<Rightarrow> exn + game" where
  "end_game gm =
     (let scores = map (\<lambda>i. (pb_score (all_birds gm ! i), bird_name i)) [0..<length (all_birds gm)];
          sorted_scores = sort_key (\<lambda>p. - fst p) scores
      in case first_pipe sorted_scores of
           Inl e \<Rightarrow> Inl e
         | Inr w \<Rightarrow> Inr (gm\<lparr>game_over := True, winner := Some w\<rparr>))"

definition update_birds :: "game \<Rightarrow> exn + game" where
  "update_birds gm =
     (case pbirds_loop (game_pipes gm) (all_birds gm) 0 of
        Inl e \<Rightarrow> Inl e
      | Inr (bs, alive_count) \<Rightarrow>
          (let gm1 = gm\<lparr>all_birds := bs\<rparr>
           in if alive_count = 0 then end_game gm1 else Inr gm1))"

text \<open>
  One turn of the loop of \<^verbatim>\<open>run\<close> after the events are handled:
  \<^verbatim>\<open>if not self.game_over: self.update_pipes(); self.update_birds()\<close>.
\<close>

definition game_frame :: "game \<Rightarrow> rng \<Rightarrow> exn + (game \<times> rng)" where
  "game_frame gm g =
     (if \<not> game_over gm
      then (case update_pipes gm g of (gm1, g1) \<Rightarrow>
              (case update_birds gm1 of Inl e \<Rightarrow> Inl e | Inr gm2 \<Rightarrow> Inr (gm2, g1)))
      else Inr (gm, g))"

text \<open>\<open>n\<close> turns of the loop of \<^verbatim>\<open>run\<close> in which no event arrives.\<close>

fun game_frames :: "nat \<Rightarrow> game \<Rightarrow> rng \<Rightarrow> exn + (game \<times> rng)" where
  "game_frames 0 gm g = Inr (gm, g)"
| "game_frames (Suc n) gm g =
     (case game_frame gm g of
        Inl e \<Rightarrow> Inl e
      | Inr (gm1, g1) \<Rightarrow> game_frames n gm1 g1)"

subsection \<open>Notions of the specification\<close>

text \<open>
  Two extents \<open>[a, b]\<close> and \<open>[c, d]\<close> overlap when they share a stretch of positive length:
  extents that only touch in an end point do not.
\<close>

definition extents_overlap :: "real \<times> real \<Rightarrow> real \<times> real \<Rightarrow> bool" where
  "extents_overlap e1 e2 = (max (fst e1) (fst e2) < min (snd e1) (snd e2))"

text \<open>A weight or a bias within the clamp range, and a brain all of whose components are.\<close>

definition in_clamp :: "real \<Rightarrow> bool" where
  "in_clamp w = (-3.0 \<le> w \<and> w \<le> 3.0)"

definition brain_in_clamp :: "heap \<Rightarrow> addr \<Rightarrow> bool" where
  "brain_in_clamp h a =
     (case brain_at h a of
        None \<Rightarrow> False
      | Some (ws, b) \<Rightarrow> length ws = 4 \<and> list_all in_clamp ws \<and> in_clamp b)"

text \<open>
  Mutation in the words of the specification, on values: a component is selected when a
  draw is below \<open>0.15\<close>; a selected component has a uniform draw from \<open>[-0.3, 0.3]\<close> added
  and is clamped to \<open>[-3.0, 3.0]\<close>, and a component that is not selected is kept. The four
  weights are treated in turn and then the bias.
\<close>

definition spec_mutate_value :: "real \<Rightarrow> rng \<Rightarrow> real \<times> rng" where
  "spec_mutate_value w g =
     (case rnd_random g of (r, g1) \<Rightarrow>
      if r < 0.15
      then (case rnd_uniform (-0.3) 0.3 g1 of (d, g2) \<Rightarrow> (max (-3.0) (min 3.0 (w + d)), g2))
      else (w, g1))"

fun spec_mutate_values :: "real list \<Rightarrow> rng \<Rightarrow> real list \<times> rng" where
  "spec_mutate_values [] g = ([], g)"
| "spec_mutate_values (w # ws) g =
     (case spec_mutate_value w g of (w', g1) \<Rightarrow>
      case spec_mutate_values ws g1 of (ws', g2) \<Rightarrow> (w' # ws', g2))"

definition spec_mutate_brain :: "real list \<times> real \<Rightarrow> rng \<Rightarrow> (real list \<times> real) \<times> rng" where
  "spec_mutate_brain v g =
     (case spec_mutate_values (fst v) g of (ws', g1) \<Rightarrow>
      case spec_mutate_value (snd v) g1 of (b', g2) \<Rightarrow> ((ws', b'), g2))"

text \<open>
  The first \<open>n\<close> floats the generator will hand out lie in the unit interval, as the values
  of \<^verbatim>\<open>random.random()\<close> do.
\<close>

definition unit_draws :: "nat \<Rightarrow> rng \<Rightarrow> bool" where
  "unit_draws n g = (\<forall>k<n. 0 \<le> floats g !! k \<and> floats g !! k \<le> 1)"

text \<open>
  The heap \<open>h'\<close> extends \<open>h\<close>: every object of \<open>h\<close> is in \<open>h'\<close> at its address and
  unchanged.
\<close>

definition heap_ext :: "heap \<Rightarrow> heap \<Rightarrow> bool" where
  "heap_ext h h' =
     (length (dicts h) \<le> length (dicts h') \<and> length (lists h) \<le> length (lists h')
      \<and> (\<forall>a<length (dicts h). dicts h' ! a = dicts h ! a)
      \<and> (\<forall>w<length (lists h). lists h' ! w = lists h ! w))"

text \<open>
  The brain at \<open>a\<close> in \<open>h'\<close> is made of objects that \<open>h\<close> does not have: its dict and its
  list of weights were both allocated after \<open>h\<close>.
\<close>

definition fresh_brain :: "heap \<Rightarrow> heap \<Rightarrow> addr \<Rightarrow> bool" where
  "fresh_brain h h' a =
     (length (dicts h) \<le> a \<and> a < length (dicts h')
      \<and> length (lists h) \<le> fst (dicts h' ! a) \<and> fst (dicts h' ! a) < length (lists h'))"

text \<open>
  The birds \<open>bs\<close> have brains made after \<open>h\<close>, and no two of them share a dict or a list
  of weights.
\<close>

definition new_birds_ok :: "heap \<Rightarrow> heap \<Rightarrow> bird list \<Rightarrow> bool" where
  "new_birds_ok h h' bs =
     ((\<forall>b\<in>set bs. fresh_brain h h' (brain b))
      \<and> distinct (map brain bs)
      \<and> distinct (map (\<lambda>b. fst (dicts h' ! brain b)) bs))"

text \<open>
  What holds of every bird of a generation when frame \<open>k\<close> starts: a bird that is alive
  has lived through the \<open>k\<close> frames so far, scoring one in each, and its fitness is still
  the \<open>0.0\<close> of the reset; a dead bird died in an earlier frame \<open>d\<close>, having scored in the
  \<open>d\<close> frames before, and its fitness is its score plus a tenth of \<open>d\<close>.
\<close>

definition frames_inv :: "nat \<Rightarrow> bird \<Rightarrow> bool" where
  "frames_inv k b =
     (if alive b then score b = int k \<and> fitness b = 0
      else (\<exists>d<k. score b = int d \<and> fitness b = real_of_int (score b) + real d * 0.1))"

section \<open>Physics\<close>

text \<open>
  C2 (as the claim states it, refuted). The claim has the next vertical position be the
  position plus the velocity the update was given. For a bird at rest at \<open>y = 300\<close> that
  would be \<open>300\<close>; the update moves it to \<open>300.4\<close>, since gravity is added to the velocity
  before the velocity is added to the position.
\<close>

theorem Bird_update_position_counterexample:
  "bird_y (Bird_update \<lparr>bird_x = 100, bird_y = 300, velocity = 0, alive = True, score = 0,
                         fitness = 0, brain = 0\<rparr>)
     \<noteq> bird_y \<lparr>bird_x = 100, bird_y = 300, velocity = 0, alive = True, score = 0,
                 fitness = 0, brain = (0::nat)\<rparr>
       + velocity \<lparr>bird_x = 100, bird_y = 300, velocity = 0, alive = True, score = 0,
                   fitness = 0, brain = (0::nat)\<rparr>"
  by (simp add: Bird_update_def Let_def)

text \<open>
  C2 (amended). One physics update adds gravity \<open>0.4\<close> to the velocity and then adds the
  new velocity to the vertical position, so the position grows by the old velocity plus
  \<open>0.4\<close>. A flap sets the velocity to \<open>-7.0\<close> whatever it was; the update of the same
  frame then adds gravity once, leaving the velocity at \<open>-6.6\<close> and moving the bird by
  \<open>-6.6\<close>.
\<close>

theorem Bird_update_physics:
  "velocity (Bird_update b) = velocity b + 0.4
   \<and> bird_y (Bird_update b) = bird_y b + velocity (Bird_update b)
   \<and> bird_y (Bird_update b) = bird_y b + velocity b + 0.4
   \<and> velocity (Bird_flap b) = -7.0
   \<and> bird_y (Bird_flap b) = bird_y b
   \<and> velocity (Bird_update (Bird_flap b)) = -6.6
   \<and> bird_y (Bird_update (Bird_flap b)) = bird_y b - 6.6"
  by (simp add: Bird_update_def Bird_flap_def Let_def)

text \<open>
  C3 (as the claim states it, refuted). A live bird at \<open>y = 0.0\<close> with velocity \<open>0\<close>, which
  is a velocity \<open>\<le> 0\<close>, is still alive after one physics update: it has moved to \<open>y = 0.4\<close>.
\<close>

theorem Bird_update_top_edge_counterexample:
  "velocity \<lparr>bird_x = 100, bird_y = 0, velocity = 0, alive = True, score = 0,
             fitness = 0, brain = (0::nat)\<rparr> \<le> 0
   \<and> alive (Bird_update \<lparr>bird_x = 100, bird_y = 0, velocity = 0, alive = True, score = 0,
                          fitness = 0, brain = 0\<rparr>)"
  by (simp add: Bird_update_def Let_def)

text \<open>
  C3 (amended). A bird at \<open>y = 0.0\<close> with a velocity of at most \<open>-0.4\<close> is marked dead by one
  physics update, and so is a bird at \<open>y = 579.9\<close> with a velocity of at least \<open>0.1\<close>. In
  general the update marks a bird dead exactly when the new position \<open>y + velocity + 0.4\<close>
  is at most \<open>0\<close> or at least \<open>580\<close>, which holds whenever the new position has left the
  closed interval from \<open>0\<close> to \<open>580\<close>; otherwise the bird stays as alive as it was.
\<close>

theorem Bird_update_bounds:
  "(bird_y b = 0.0 \<and> velocity b \<le> -0.4 \<longrightarrow> \<not> alive (Bird_update b))
   \<and> (bird_y b = 579.9 \<and> velocity b \<ge> 0.1 \<longrightarrow> \<not> alive (Bird_update b))
   \<and> (bird_y (Bird_update b) < 0 \<or> bird_y (Bird_update b) > 580 \<longrightarrow> \<not> alive (Bird_update b))
   \<and> (alive (Bird_update b)
        \<longleftrightarrow> alive b \<and> 0 < bird_y b + velocity b + 0.4 \<and> bird_y b + velocity b + 0.4 < 580)"
  by (auto simp add: Bird_update_def Let_def)

theorem Bird_update_bounds_witness:
  "\<not> alive (Bird_update \<lparr>bird_x = 100, bird_y = 0.0, velocity = -0.4, alive = True, score = 0,
                          fitness = 0, brain = 0\<rparr>)
   \<and> \<not> alive (Bird_update \<lparr>bird_x = 100, bird_y = 579.9, velocity = 0.1, alive = True,
                            score = 0, fitness = 0, brain = 0\<rparr>)
   \<and> bird_y (Bird_update \<lparr>bird_x = 100, bird_y = 579.9, velocity = 0.1, alive = True,
                            score = 0, fitness = 0, brain = 0\<rparr>) > 580
   \<and> alive (Bird_update \<lparr>bird_x = 100, bird_y = 300, velocity = 0, alive = True,
                          score = 0, fitness = 0, brain = 0\<rparr>)"
  using Bird_update_bounds
          [of "\<lparr>bird_x = 100, bird_y = 0.0, velocity = -0.4, alive = True, score = 0,
                fitness = 0, brain = 0\<rparr>"]
        Bird_update_bounds
          [of "\<lparr>bird_x = 100, bird_y = 579.9, velocity = 0.1, alive = True, score = 0,
                fitness = 0, brain = 0\<rparr>"]
        Bird_update_bounds
          [of "\<lparr>bird_x = 100, bird_y = 300, velocity = 0, alive = True, score = 0,
                fitness = 0, brain = 0\<rparr>"]
  by (simp add: Bird_update_def Let_def)

section \<open>Collision\<close>

text \<open>
  C5. For a pipe of positive width (every pipe is built with width \<open>80\<close>) the collision
  test is true exactly when the horizontal extent of the bird, from \<open>x - 12\<close> to \<open>x + 12\<close>,
  overlaps the horizontal extent of the pipe, from its \<open>x\<close> to \<open>x + width\<close>, and the
  vertical extent of the bird, from \<open>y - 12\<close> to \<open>y + 12\<close>, reaches above the top of the gap
  or below its bottom. A bird at \<open>y = 300\<close> and a pipe at the bird's \<open>x\<close> with the gap from
  \<open>100\<close> to \<open>500\<close> do not collide; with the gap from \<open>310\<close> to \<open>500\<close> they do.
\<close>

theorem Pipe_collides_with_iff:
  "(0 < width p \<longrightarrow>
      Pipe_collides_with p b
        = (extents_overlap (bird_x b - 12, bird_x b + 12) (pipe_x p, pipe_x p + width p)
           \<and> (bird_y b - 12 < top_height p \<or> bird_y b + 12 > bottom_height p)))
   \<and> (bird_y b = 300 \<longrightarrow>
        \<not> Pipe_collides_with
            \<lparr>pipe_x = bird_x b, width = 80, top_height = 100, bottom_height = 500\<rparr> b)
   \<and> (bird_y b = 300 \<longrightarrow>
        Pipe_collides_with
          \<lparr>pipe_x = bird_x b, width = 80, top_height = 310, bottom_height = 500\<rparr> b)"
  by (auto simp add: Pipe_collides_with_def extents_overlap_def Let_def)

theorem Pipe_collides_with_iff_witness:
  "(0::real) < width \<lparr>pipe_x = 100, width = 80, top_height = 310, bottom_height = 500\<rparr>
   \<and> bird_y \<lparr>bird_x = 100, bird_y = 300, velocity = 0, alive = True, score = 0,
              fitness = 0, brain = (0::nat)\<rparr> = 300
   \<and> extents_overlap (100 - 12, 100 + 12) (100, 100 + 80)
   \<and> Pipe_collides_with \<lparr>pipe_x = 100, width = 80, top_height = 310, bottom_height = 500\<rparr>
        \<lparr>bird_x = 100, bird_y = 300, velocity = 0, alive = True, score = 0,
          fitness = 0, brain = 0\<rparr>
   \<and> \<not> Pipe_collides_with \<lparr>pipe_x = 100, width = 80, top_height = 100, bottom_height = 500\<rparr>
        \<lparr>bird_x = 100, bird_y = 300, velocity = 0, alive = True, score = 0,
          fitness = 0, brain = 0\<rparr>"
  using Pipe_collides_with_iff
          [of "\<lparr>pipe_x = 100, width = 80, top_height = 310, bottom_height = 500\<rparr>"
              "\<lparr>bird_x = 100, bird_y = 300, velocity = 0, alive = True, score = 0,
                fitness = 0, brain = 0\<rparr>"]
  by (simp add: extents_overlap_def)

section \<open>The decision function\<close>

subsection \<open>The closest pipe and the weighted sum\<close>

lemma closest_loop_none:
  "\<forall>p\<in>set ps. \<not> pipe_x p > bird_x b - 50 \<Longrightarrow> closest_loop b ps acc = acc"
  by (induction ps arbitrary: acc) (auto split: prod.splits)

lemma pb_closest_loop_none:
  "\<forall>p\<in>set ps. \<not> pp_x p > pb_x b - 50 \<Longrightarrow> pb_closest_loop b ps acc = acc"
  by (induction ps arbitrary: acc) (auto split: prod.splits)

lemma sum_loop_total:
  "\<forall>i\<in>set js. i < length inputs \<and> i < length ws \<Longrightarrow> \<exists>r. sum_loop inputs ws js out = Inr r"
  by (induction js arbitrary: out) auto

lemma sum_loop_range4:
  "length inputs = 4 \<Longrightarrow> 4 \<le> length ws \<Longrightarrow> \<exists>r. sum_loop inputs ws [0..<4] out = Inr r"
  by (rule sum_loop_total) auto

lemma chosen_pipe_total:
  "ps \<noteq> [] \<Longrightarrow>
     \<exists>p. (case fst (closest_loop b ps (None, None)) of
            None \<Rightarrow> first_pipe ps | Some p \<Rightarrow> Inr p) = Inr p"
  by (cases ps) (auto simp: first_pipe_def split: option.splits)

lemma pb_chosen_pipe_total:
  "ps \<noteq> [] \<Longrightarrow>
     \<exists>p. (case fst (pb_closest_loop b ps (None, None)) of
            None \<Rightarrow> first_pipe ps | Some p \<Rightarrow> Inr p) = Inr p"
  by (cases ps) (auto simp: first_pipe_def split: option.splits)

subsection \<open>The empty list of pipes\<close>

lemma Bird_think_empty: "Bird_think h b [] = Inl IndexError"
  by (simp add: Bird_think_def first_pipe_def)

lemma PBird_think_empty: "pb_is_ai b \<Longrightarrow> PBird_think b [] = Inl IndexError"
  by (simp add: PBird_think_def first_pipe_def)

lemma Bird_think_total:
  assumes "ps \<noteq> []" and "4 \<le> length (lists h ! fst (dicts h ! brain b))"
  shows "\<exists>d. Bird_think h b ps = Inr d"
proof -
  from chosen_pipe_total[OF assms(1)] obtain p where
    p: "(case fst (closest_loop b ps (None, None)) of
           None \<Rightarrow> first_pipe ps | Some p \<Rightarrow> Inr p) = Inr p"
    by blast
  let ?inputs = "[bird_y b / 600.0, velocity b / 10.0, (pipe_x p - bird_x b) / 400.0,
                  ((top_height p + bottom_height p) / 2) / 600.0]"
  from sum_loop_range4[of ?inputs, OF _ assms(2)] obtain r where
    "sum_loop ?inputs (lists h ! fst (dicts h ! brain b)) [0..<4] (get_bias h (brain b)) = Inr r"
    by auto
  then show ?thesis
    by (simp add: Bird_think_def p Let_def)
qed

lemma PBird_think_total:
  assumes "ps \<noteq> []" and "pb_brain b = Some br" and "4 \<le> length (pweights br)"
  shows "\<exists>d. PBird_think b ps = Inr d"
proof (cases "pb_is_ai b")
  case False
  then show ?thesis by (auto simp: PBird_think_def)
next
  case True
  from pb_chosen_pipe_total[OF assms(1)] obtain p where
    p: "(case fst (pb_closest_loop b ps (None, None)) of
           None \<Rightarrow> first_pipe ps | Some p \<Rightarrow> Inr p) = Inr p"
    by blast
  let ?inputs = "[pb_y b / 600.0, pb_velocity b / 10.0, (pp_x p - pb_x b) / 400.0,
                  ((pp_top_height p + pp_bottom_height p) / 2) / 600.0]"
  from sum_loop_range4[of ?inputs, OF _ assms(3)] obtain r where
    "sum_loop ?inputs (pweights br) [0..<4] (pbias br) = Inr r"
    by auto
  then show ?thesis
    by (simp add: PBird_think_def p Let_def assms(2) True)
qed

lemma Bird_think_fallback:
  assumes "\<forall>p\<in>set ps. \<not> pipe_x p > bird_x b - 50"
  shows "Bird_think h b ps = Bird_think h b (take 1 ps)"
proof (cases ps)
  case Nil
  then show ?thesis by simp
next
  case (Cons p0 rest)
  have "closest_loop b (p0 # rest) (None, None) = (None, None)"
    using assms Cons by (intro closest_loop_none) simp
  moreover have "closest_loop b [p0] (None, None) = (None, None)"
    using assms Cons by (intro closest_loop_none) simp
  ultimately show ?thesis
    by (simp only: Cons Bird_think_def first_pipe_def fst_conv option.case list.case
          take_Suc_Cons take_0 One_nat_def)
qed

lemma PBird_think_fallback:
  assumes "\<forall>p\<in>set ps. \<not> pp_x p > pb_x b - 50"
  shows "PBird_think b ps = PBird_think b (take 1 ps)"
proof (cases ps)
  case Nil
  then show ?thesis by simp
next
  case (Cons p0 rest)
  have "pb_closest_loop b (p0 # rest) (None, None) = (None, None)"
    using assms Cons by (intro pb_closest_loop_none) simp
  moreover have "pb_closest_loop b [p0] (None, None) = (None, None)"
    using assms Cons by (intro pb_closest_loop_none) simp
  ultimately show ?thesis
    by (simp only: Cons PBird_think_def first_pipe_def fst_conv option.case list.case
          take_Suc_Cons take_0 One_nat_def)
qed

text \<open>
  The lists of pipes the two programs hand to the decision function are never empty:
  a generation starts with three pipes and moving them keeps their number, and the game
  adds a pipe whenever its list has become empty.
\<close>

lemma pipes_loop_result_length: "pipes_loop ps g = (ps', g') \<Longrightarrow> length ps' = length ps"
  by (induction ps arbitrary: g ps' g') (auto split: prod.splits)

lemma pipes_loop_length: "length (fst (pipes_loop ps g)) = length ps"
  by (cases "pipes_loop ps g") (simp add: pipes_loop_result_length)

lemma create_pipes_length: "length (pipes (fst (create_pipes ai g))) = 3"
  by (simp add: create_pipes_def split: prod.splits)

lemma update_pipes_nonempty: "game_pipes (fst (update_pipes gm g)) \<noteq> []"
proof (cases "filter (\<lambda>p. pp_x p > - pp_width p) (map PPipe_update (game_pipes gm)) = []")
  case True
  then show ?thesis
    by (simp add: update_pipes_def Let_def split: prod.splits)
next
  case False
  then show ?thesis
    by (simp add: update_pipes_def Let_def split: prod.splits)
qed

subsection \<open>A brain of zeros\<close>

text \<open>
  C6. A bird whose brain has four weights \<open>0\<close> and bias \<open>0\<close> is answered \<open>False\<close> by the
  decision function, whatever its own position and velocity and whatever the pipes, of
  which there is at least one: the sum is \<open>0\<close>, the clamp leaves it, the logistic value is
  \<open>1 / (1 + exp 0) = 0.5\<close>, and \<open>0.5 > 0.5\<close> is false.
\<close>

theorem Bird_think_zero_brain:
  assumes "brain_at h (brain b) = Some ([0, 0, 0, 0], 0)" and "ps \<noteq> []"
  shows "Bird_think h b ps = Inr False"
proof -
  from assms(1) have w: "lists h ! fst (dicts h ! brain b) = [0, 0, 0, 0]"
    and bz: "get_bias h (brain b) = 0"
    by (auto simp: brain_at_def get_bias_def split: if_splits)
  from chosen_pipe_total[OF assms(2)] obtain p where
    p: "(case fst (closest_loop b ps (None, None)) of
           None \<Rightarrow> first_pipe ps | Some p \<Rightarrow> Inr p) = Inr p"
    by blast
  show ?thesis
    by (simp add: Bird_think_def p w bz Let_def upt_rec)
qed

theorem Bird_think_zero_brain_witness:
  "brain_at \<lparr>dicts = [(0, 0)], lists = [[0, 0, 0, 0]]\<rparr>
     (brain \<lparr>bird_x = 100, bird_y = 300, velocity = 0, alive = True, score = 0,
             fitness = 0, brain = 0\<rparr>) = Some ([0, 0, 0, 0], 0)
   \<and> [\<lparr>pipe_x = 400, width = 80, top_height = 200, bottom_height = 400\<rparr>] \<noteq> []
   \<and> Bird_think \<lparr>dicts = [(0, 0)], lists = [[0, 0, 0, 0]]\<rparr>
        \<lparr>bird_x = 100, bird_y = 300, velocity = 0, alive = True, score = 0,
          fitness = 0, brain = 0\<rparr>
        [\<lparr>pipe_x = 400, width = 80, top_height = 200, bottom_height = 400\<rparr>] = Inr False"
  using Bird_think_zero_brain
          [of "\<lparr>dicts = [(0, 0)], lists = [[0, 0, 0, 0]]\<rparr>"
              "\<lparr>bird_x = 100, bird_y = 300, velocity = 0, alive = True, score = 0,
                fitness = 0, brain = 0\<rparr>"
              "[\<lparr>pipe_x = 400, width = 80, top_height = 200, bottom_height = 400\<rparr>]"]
  by (simp add: brain_at_def)

subsection \<open>The precondition of the decision function\<close>

text \<open>
  C10. In both programs the decision function of a bird with a brain returns a decision
  only when the list of pipes is not empty. When no pipe lies ahead of \<open>x - 50\<close> the
  result is the one computed from element 0 of the list alone; on the empty list the
  read of element 0 raises IndexError. With a pipe in the list and a brain of four
  weights a decision is returned. The human's bird of the game has no brain: it is
  answered \<open>False\<close> before the pipes are looked at, and the game never asks.
\<close>

theorem think_requires_a_pipe:
  "Bird_think h b [] = Inl IndexError
   \<and> ((\<exists>d. Bird_think h b ps = Inr d) \<longrightarrow> ps \<noteq> [])
   \<and> ((\<forall>p\<in>set ps. \<not> pipe_x p > bird_x b - 50)
        \<longrightarrow> Bird_think h b ps = Bird_think h b (take 1 ps))
   \<and> (ps \<noteq> [] \<and> 4 \<le> length (lists h ! fst (dicts h ! brain b))
        \<longrightarrow> (\<exists>d. Bird_think h b ps = Inr d))
   \<and> (pb_is_ai pb \<longrightarrow> PBird_think pb [] = Inl IndexError)
   \<and> (pb_is_ai pb \<and> (\<exists>d. PBird_think pb qs = Inr d) \<longrightarrow> qs \<noteq> [])
   \<and> ((\<forall>q\<in>set qs. \<not> pp_x q > pb_x pb - 50)
        \<longrightarrow> PBird_think pb qs = PBird_think pb (take 1 qs))
   \<and> (qs \<noteq> [] \<and> pb_brain pb = Some br \<and> 4 \<le> length (pweights br)
        \<longrightarrow> (\<exists>d. PBird_think pb qs = Inr d))
   \<and> (\<not> pb_is_ai pb \<longrightarrow> PBird_think pb qs = Inr False)"
proof -
  have e1: "Bird_think h b [] = Inl IndexError"
    by (rule Bird_think_empty)
  have e2: "(\<exists>d. Bird_think h b ps = Inr d) \<longrightarrow> ps \<noteq> []"
    using e1 by auto
  have e3: "(\<forall>p\<in>set ps. \<not> pipe_x p > bird_x b - 50)
              \<longrightarrow> Bird_think h b ps = Bird_think h b (take 1 ps)"
    using Bird_think_fallback by blast
  have e4: "ps \<noteq> [] \<and> 4 \<le> length (lists h ! fst (dicts h ! brain b))
              \<longrightarrow> (\<exists>d. Bird_think h b ps = Inr d)"
    using Bird_think_total by blast
  have p1: "pb_is_ai pb \<longrightarrow> PBird_think pb [] = Inl IndexError"
    using PBird_think_empty by blast
  have p2: "pb_is_ai pb \<and> (\<exists>d. PBird_think pb qs = Inr d) \<longrightarrow> qs \<noteq> []"
    using p1 by auto
  have p3: "(\<forall>q\<in>set qs. \<not> pp_x q > pb_x pb - 50)
              \<longrightarrow> PBird_think pb qs = PBird_think pb (take 1 qs)"
    using PBird_think_fallback by blast
  have p4: "qs \<noteq> [] \<and> pb_brain pb = Some br \<and> 4 \<le> length (pweights br)
              \<longrightarrow> (\<exists>d. PBird_think pb qs = Inr d)"
    using PBird_think_total by blast
  have p5: "\<not> pb_is_ai pb \<longrightarrow> PBird_think pb qs = Inr False"
    by (simp add: PBird_think_def)
  from e1 e2 e3 e4 p1 p2 p3 p4 p5 show ?thesis
    by blast
qed

theorem think_requires_a_pipe_witness:
  "Bird_think \<lparr>dicts = [(0, 1/2)], lists = [[1, -1, 1/2, 0]]\<rparr>
      \<lparr>bird_x = 100, bird_y = 300, velocity = 0, alive = True, score = 0,
        fitness = 0, brain = 0\<rparr> [] = Inl IndexError
   \<and> Bird_think \<lparr>dicts = [(0, 1/2)], lists = [[1, -1, 1/2, 0]]\<rparr>
        \<lparr>bird_x = 100, bird_y = 300, velocity = 0, alive = True, score = 0,
          fitness = 0, brain = 0\<rparr>
        [\<lparr>pipe_x = 40, width = 80, top_height = 200, bottom_height = 400\<rparr>,
         \<lparr>pipe_x = 30, width = 80, top_height = 100, bottom_height = 300\<rparr>]
       = Bird_think \<lparr>dicts = [(0, 1/2)], lists = [[1, -1, 1/2, 0]]\<rparr>
           \<lparr>bird_x = 100, bird_y = 300, velocity = 0, alive = True, score = 0,
             fitness = 0, brain = 0\<rparr>
           (take 1 [\<lparr>pipe_x = 40, width = 80, top_height = 200, bottom_height = 400\<rparr>,
                    \<lparr>pipe_x = 30, width = 80, top_height = 100, bottom_height = 300\<rparr>])
   \<and> (\<exists>d. Bird_think \<lparr>dicts = [(0, 1/2)], lists = [[1, -1, 1/2, 0]]\<rparr>
              \<lparr>bird_x = 100, bird_y = 300, velocity = 0, alive = True, score = 0,
                fitness = 0, brain = 0\<rparr>
              [\<lparr>pipe_x = 40, width = 80, top_height = 200, bottom_height = 400\<rparr>,
               \<lparr>pipe_x = 30, width = 80, top_height = 100, bottom_height = 300\<rparr>] = Inr d)
   \<and> PBird_think \<lparr>pb_x = 100, pb_y = 300, pb_velocity = 0, pb_alive = True, pb_score = 0,
                    pb_is_ai = True, pb_brain = Some \<lparr>pweights = [1, -1, 1/2, 0], pbias = 1/2\<rparr>\<rparr>
        [] = Inl IndexError
   \<and> (\<exists>d. PBird_think \<lparr>pb_x = 100, pb_y = 300, pb_velocity = 0, pb_alive = True,
                         pb_score = 0, pb_is_ai = True,
                         pb_brain = Some \<lparr>pweights = [1, -1, 1/2, 0], pbias = 1/2\<rparr>\<rparr>
              [\<lparr>pp_x = 40, pp_width = 80, pp_speed = 2, pp_top_height = 200,
                pp_bottom_height = 380\<rparr>] = Inr d)
   \<and> PBird_think \<lparr>pb_x = 100, pb_y = 250, pb_velocity = 0, pb_alive = True, pb_score = 0,
                    pb_is_ai = False, pb_brain = None\<rparr> [] = Inr False"
proof -
  let ?h = "\<lparr>dicts = [(0, 1/2)], lists = [[1, -1, 1/2, 0]]\<rparr>"
  let ?b = "\<lparr>bird_x = 100, bird_y = 300, velocity = 0, alive = True, score = 0,
             fitness = 0, brain = 0\<rparr>"
  let ?ps = "[\<lparr>pipe_x = 40, width = 80, top_height = 200, bottom_height = 400\<rparr>,
              \<lparr>pipe_x = 30, width = 80, top_height = 100, bottom_height = 300\<rparr>]"
  let ?br = "\<lparr>pweights = [1, -1, 1/2, 0], pbias = 1/2\<rparr>"
  let ?pb = "\<lparr>pb_x = 100, pb_y = 300, pb_velocity = 0, pb_alive = True, pb_score = 0,
              pb_is_ai = True, pb_brain = Some ?br\<rparr>"
  let ?qs = "[\<lparr>pp_x = 40, pp_width = 80, pp_speed = 2, pp_top_height = 200,
               pp_bottom_height = 380\<rparr>]"
  let ?hu = "\<lparr>pb_x = 100, pb_y = 250, pb_velocity = 0, pb_alive = True, pb_score = 0,
              pb_is_ai = False, pb_brain = None\<rparr>"
  note ai = think_requires_a_pipe [of ?h ?b ?ps ?pb ?qs ?br]
  note hu = think_requires_a_pipe [of ?h ?b ?ps ?hu "[]" ?br]
  have behind: "\<forall>p\<in>set ?ps. \<not> pipe_x p > bird_x ?b - 50"
    by simp
  have four: "?ps \<noteq> [] \<and> 4 \<le> length (lists ?h ! fst (dicts ?h ! brain ?b))"
    by simp
  have is_ai: "pb_is_ai ?pb"
    by simp
  have pfour: "?qs \<noteq> [] \<and> pb_brain ?pb = Some ?br \<and> 4 \<le> length (pweights ?br)"
    by simp
  have human: "\<not> pb_is_ai ?hu"
    by simp
  from ai behind four is_ai pfour hu human show ?thesis
    by blast
qed

section \<open>Mutation\<close>

lemma set_weight_dicts [simp]: "dicts (set_weight h a i v) = dicts h"
  by (simp add: set_weight_def Let_def)

lemma set_weight_length [simp]: "length (lists (set_weight h a i v)) = length (lists h)"
  by (simp add: set_weight_def Let_def)

lemma set_weight_same:
  "fst (dicts h ! a) < length (lists h) \<Longrightarrow>
     lists (set_weight h a i v) ! fst (dicts h ! a) = (lists h ! fst (dicts h ! a))[i := v]"
  by (simp add: set_weight_def Let_def)

lemma set_weight_other:
  "w \<noteq> fst (dicts h ! a) \<Longrightarrow> lists (set_weight h a i v) ! w = lists h ! w"
  by (simp add: set_weight_def Let_def)

lemma clamp_in_clamp: "in_clamp (max (- 3) (min 3 v))"
  by (simp add: in_clamp_def)

text \<open>One clamped write: element i of the weights ends within the clamp range.\<close>

lemma mutate_step:
  assumes "fst (dicts h ! a) < length (lists h)"
    and h1_def: "h1 = set_weight h a i (get_weight h a i + d)"
    and h2_def: "h2 = set_weight h1 a i (max (-3.0) (min 3.0 (get_weight h1 a i)))"
  shows "dicts h2 = dicts h"
    and "length (lists h2) = length (lists h)"
    and "w \<noteq> fst (dicts h ! a) \<Longrightarrow> lists h2 ! w = lists h ! w"
    and "length (lists h2 ! fst (dicts h ! a)) = length (lists h ! fst (dicts h ! a))"
    and "j < length (lists h ! fst (dicts h ! a)) \<Longrightarrow>
           lists h2 ! fst (dicts h ! a) ! j = lists h ! fst (dicts h ! a) ! j
           \<or> in_clamp (lists h2 ! fst (dicts h ! a) ! j)"
proof -
  let ?wa = "fst (dicts h ! a)"
  have d1: "dicts h1 = dicts h" by (simp add: h1_def)
  have l1: "lists h1 ! ?wa = (lists h ! ?wa)[i := get_weight h a i + d]"
    using assms(1) by (simp add: h1_def set_weight_same)
  have wa1: "fst (dicts h1 ! a) < length (lists h1)"
    using assms(1) by (simp add: h1_def)
  have l2: "lists h2 ! ?wa = (lists h1 ! ?wa)[i := max (-3.0) (min 3.0 (get_weight h1 a i))]"
    using set_weight_same[OF wa1] by (simp add: h2_def d1)
  show "dicts h2 = dicts h" by (simp add: h2_def h1_def)
  show "length (lists h2) = length (lists h)" by (simp add: h2_def h1_def)
  show "w \<noteq> ?wa \<Longrightarrow> lists h2 ! w = lists h ! w"
    by (simp add: h2_def h1_def set_weight_other)
  show "length (lists h2 ! ?wa) = length (lists h ! ?wa)"
    by (simp add: l2 l1)
  show "j < length (lists h ! ?wa) \<Longrightarrow>
          lists h2 ! ?wa ! j = lists h ! ?wa ! j \<or> in_clamp (lists h2 ! ?wa ! j)"
    by (cases "j = i") (simp_all add: l2 l1 clamp_in_clamp)
qed

lemma mutate_weights_inv:
  assumes "mutate_weights a js h g = (h', g')" and "fst (dicts h ! a) < length (lists h)"
  shows "dicts h' = dicts h
         \<and> length (lists h') = length (lists h)
         \<and> (\<forall>w. w \<noteq> fst (dicts h ! a) \<longrightarrow> lists h' ! w = lists h ! w)
         \<and> length (lists h' ! fst (dicts h ! a)) = length (lists h ! fst (dicts h ! a))
         \<and> (\<forall>j < length (lists h ! fst (dicts h ! a)).
               lists h' ! fst (dicts h ! a) ! j = lists h ! fst (dicts h ! a) ! j
               \<or> in_clamp (lists h' ! fst (dicts h ! a) ! j))"
  using assms
proof (induction js arbitrary: h g)
  case Nil
  then show ?case by simp
next
  case (Cons i js)
  obtain r g1 where r: "rnd_random g = (r, g1)" by (cases "rnd_random g")
  show ?case
  proof (cases "r < mutation_rate")
    case False
    with Cons.prems r have "mutate_weights a js h g1 = (h', g')" by simp
    from Cons.IH[OF this Cons.prems(2)] show ?thesis .
  next
    case True
    obtain d g2 where d: "rnd_uniform (- mutation_strength) mutation_strength g1 = (d, g2)"
      by (cases "rnd_uniform (- mutation_strength) mutation_strength g1")
    define h1 where "h1 = set_weight h a i (get_weight h a i + d)"
    define h2 where "h2 = set_weight h1 a i (max (-3.0) (min 3.0 (get_weight h1 a i)))"
    from Cons.prems(1) r True d have rec: "mutate_weights a js h2 g2 = (h', g')"
      by (simp add: Let_def h1_def h2_def)
    note st = mutate_step[OF Cons.prems(2) h1_def h2_def]
    have wa2: "fst (dicts h2 ! a) < length (lists h2)"
      using Cons.prems(2) st(1) st(2) by simp
    from Cons.IH[OF rec wa2] have ih:
      "dicts h' = dicts h2" "length (lists h') = length (lists h2)"
      "\<forall>w. w \<noteq> fst (dicts h2 ! a) \<longrightarrow> lists h' ! w = lists h2 ! w"
      "length (lists h' ! fst (dicts h2 ! a)) = length (lists h2 ! fst (dicts h2 ! a))"
      "\<forall>j < length (lists h2 ! fst (dicts h2 ! a)).
         lists h' ! fst (dicts h2 ! a) ! j = lists h2 ! fst (dicts h2 ! a) ! j
         \<or> in_clamp (lists h' ! fst (dicts h2 ! a) ! j)"
      by blast+
    have eq: "fst (dicts h2 ! a) = fst (dicts h ! a)" by (simp add: st(1))
    show ?thesis
      using ih st unfolding eq by (metis (no_types, lifting))
  qed
qed


lemma set_bias_lists [simp]: "lists (set_bias h a v) = lists h"
  by (simp add: set_bias_def)

lemma set_bias_length [simp]: "length (dicts (set_bias h a v)) = length (dicts h)"
  by (simp add: set_bias_def)

lemma set_bias_same:
  "a < length (dicts h) \<Longrightarrow> dicts (set_bias h a v) ! a = (fst (dicts h ! a), v)"
  by (simp add: set_bias_def)

lemma set_bias_other: "a' \<noteq> a \<Longrightarrow> dicts (set_bias h a v) ! a' = dicts h ! a'"
  by (simp add: set_bias_def)

text \<open>
  What \<open>mutate_brain\<close> does to the heap: it writes into the dict at \<open>a\<close> and into the
  list that dict refers to and into nothing else, it allocates nothing, and each weight
  and the bias is afterwards either what it was or within the clamp range.
\<close>

lemma mutate_brain_inv:
  assumes wf: "a < length (dicts h)" "fst (dicts h ! a) < length (lists h)"
    and m: "mutate_brain a h g = (h', g')"
  shows "length (dicts h') = length (dicts h)"
    and "length (lists h') = length (lists h)"
    and "fst (dicts h' ! a) = fst (dicts h ! a)"
    and "\<forall>a'. a' \<noteq> a \<longrightarrow> dicts h' ! a' = dicts h ! a'"
    and "\<forall>w. w \<noteq> fst (dicts h ! a) \<longrightarrow> lists h' ! w = lists h ! w"
    and "length (lists h' ! fst (dicts h ! a)) = length (lists h ! fst (dicts h ! a))"
    and "\<forall>j < length (lists h ! fst (dicts h ! a)).
           lists h' ! fst (dicts h ! a) ! j = lists h ! fst (dicts h ! a) ! j
           \<or> in_clamp (lists h' ! fst (dicts h ! a) ! j)"
    and "snd (dicts h' ! a) = snd (dicts h ! a) \<or> in_clamp (snd (dicts h' ! a))"
proof -
  let ?wa = "fst (dicts h ! a)"
  obtain h1 g1 where w: "mutate_weights a [0..<length (lists h ! ?wa)] h g = (h1, g1)"
    by (cases "mutate_weights a [0..<length (lists h ! ?wa)] h g")
  note inv = mutate_weights_inv[OF w wf(2)]
  obtain r g2 where r: "rnd_random g1 = (r, g2)" by (cases "rnd_random g1")
  obtain d g3 where d: "rnd_uniform (- mutation_strength) mutation_strength g2 = (d, g3)"
    by (cases "rnd_uniform (- mutation_strength) mutation_strength g2")
  define h2 where "h2 = set_bias h1 a (get_bias h1 a + d)"
  define h3 where "h3 = set_bias h2 a (max (-3.0) (min 3.0 (get_bias h2 a)))"
  have h': "h' = (if r < mutation_rate then h3 else h1)"
    using m w r d by (simp add: mutate_brain_def Let_def h2_def h3_def split: if_splits)
  have a1: "a < length (dicts h1)" using inv wf(1) by simp
  have a2: "a < length (dicts h2)" using a1 by (simp add: h2_def)
  have l3: "lists h3 = lists h1" by (simp add: h3_def h2_def)
  have n3: "length (dicts h3) = length (dicts h1)" by (simp add: h3_def h2_def)
  have d2: "dicts h2 ! a = (fst (dicts h1 ! a), get_bias h1 a + d)"
    unfolding h2_def by (rule set_bias_same[OF a1])
  have d3: "dicts h3 ! a = (fst (dicts h1 ! a), max (- 3) (min 3 (get_bias h2 a)))"
    unfolding h3_def using set_bias_same[OF a2] d2 by simp
  have o3: "\<forall>a'. a' \<noteq> a \<longrightarrow> dicts h3 ! a' = dicts h1 ! a'"
    by (simp add: h3_def h2_def set_bias_other)
  have c3: "in_clamp (snd (dicts h3 ! a))"
    by (simp add: d3 clamp_in_clamp)
  show "length (dicts h') = length (dicts h)" using inv n3 by (simp add: h')
  show "length (lists h') = length (lists h)" using inv l3 by (simp add: h')
  show "fst (dicts h' ! a) = fst (dicts h ! a)" using inv d3 by (simp add: h')
  show "\<forall>a'. a' \<noteq> a \<longrightarrow> dicts h' ! a' = dicts h ! a'" using inv o3 by (simp add: h')
  show "\<forall>w. w \<noteq> ?wa \<longrightarrow> lists h' ! w = lists h ! w" using inv l3 by (simp add: h')
  show "length (lists h' ! ?wa) = length (lists h ! ?wa)" using inv l3 by (simp add: h')
  show "\<forall>j < length (lists h ! ?wa).
          lists h' ! ?wa ! j = lists h ! ?wa ! j \<or> in_clamp (lists h' ! ?wa ! j)"
    using inv l3 by (simp add: h')
  show "snd (dicts h' ! a) = snd (dicts h ! a) \<or> in_clamp (snd (dicts h' ! a))"
    using inv c3 by (simp add: h')
qed

text \<open>
  A brain within the clamp range is within it after \<open>mutate_brain\<close>, whatever the
  generator draws.
\<close>

lemma mutate_brain_keeps_clamp:
  assumes "brain_in_clamp h a"
  shows "brain_in_clamp (fst (mutate_brain a h g)) a"
proof -
  obtain h' g' where m: "mutate_brain a h g = (h', g')" by (cases "mutate_brain a h g")
  let ?wa = "fst (dicts h ! a)"
  from assms have wf: "a < length (dicts h)" "?wa < length (lists h)"
    and len: "length (lists h ! ?wa) = 4"
    and ws: "list_all in_clamp (lists h ! ?wa)"
    and b: "in_clamp (snd (dicts h ! a))"
    by (auto simp: brain_in_clamp_def brain_at_def split: if_splits)
  note inv = mutate_brain_inv[OF wf m]
  have "\<forall>j < length (lists h' ! ?wa). in_clamp (lists h' ! ?wa ! j)"
    using inv(6,7) ws by (auto simp: list_all_length)
  then have "list_all in_clamp (lists h' ! ?wa)"
    by (simp add: list_all_length)
  moreover have "in_clamp (snd (dicts h' ! a))"
    using inv(8) b by auto
  moreover have "length (lists h' ! ?wa) = 4"
    using inv(6) len by simp
  ultimately have "brain_in_clamp h' a"
    using wf inv(1,2,3) by (simp add: brain_in_clamp_def brain_at_def)
  then show ?thesis by (simp add: m)
qed

subsection \<open>The mutation of the code and the mutation of the specification\<close>

text \<open>The two writes of a selected weight leave the clamped sum at its index.\<close>

lemma two_writes:
  assumes wf: "fst (dicts h ! a) < length (lists h)"
    and i: "i < length (lists h ! fst (dicts h ! a))"
    and h1: "h1 = set_weight h a i (get_weight h a i + d)"
    and h2: "h2 = set_weight h1 a i (max (-3.0) (min 3.0 (get_weight h1 a i)))"
  shows "lists h2 ! fst (dicts h ! a)
           = (lists h ! fst (dicts h ! a))
               [i := max (-3.0) (min 3.0 (lists h ! fst (dicts h ! a) ! i + d))]"
proof -
  let ?wa = "fst (dicts h ! a)"
  have d1: "dicts h1 = dicts h" by (simp add: h1)
  have l1: "lists h1 ! ?wa = (lists h ! ?wa)[i := get_weight h a i + d]"
    using wf by (simp add: h1 set_weight_same)
  have wa1: "fst (dicts h1 ! a) < length (lists h1)"
    using wf by (simp add: h1)
  have g1: "get_weight h1 a i = lists h ! ?wa ! i + d"
    using i by (simp add: get_weight_def d1 l1)
  have "lists h2 ! ?wa = (lists h1 ! ?wa)[i := max (-3.0) (min 3.0 (get_weight h1 a i))]"
    using set_weight_same[OF wa1] by (simp add: h2 d1)
  then show ?thesis by (simp add: l1 g1)
qed

lemma spec_mutate_value_cases:
  "spec_mutate_value w g =
     (if shd (floats g) < 0.15
      then (max (-3.0) (min 3.0 (w + (-0.3 + 0.6 * shd (stl (floats g))))),
            g\<lparr>floats := stl (stl (floats g))\<rparr>)
      else (w, g\<lparr>floats := stl (floats g)\<rparr>))"
  by (simp add: spec_mutate_value_def rnd_random_def rnd_uniform_def)

text \<open>
  The loop over the indices, writing through the reference, does to the list of weights
  what the specification's mutation does to its values, with the same draws.
\<close>

lemma mutate_weights_values:
  assumes "fst (dicts h ! a) < length (lists h)"
    and "lists h ! fst (dicts h ! a) = pre @ ws"
  shows "dicts (fst (mutate_weights a [length pre..<length pre + length ws] h g)) = dicts h
         \<and> length (lists (fst (mutate_weights a [length pre..<length pre + length ws] h g)))
             = length (lists h)
         \<and> lists (fst (mutate_weights a [length pre..<length pre + length ws] h g))
               ! fst (dicts h ! a) = pre @ fst (spec_mutate_values ws g)
         \<and> snd (mutate_weights a [length pre..<length pre + length ws] h g)
             = snd (spec_mutate_values ws g)"
  using assms
proof (induction ws arbitrary: pre h g)
  case Nil
  then show ?case by simp
next
  case (Cons w ws)
  let ?wa = "fst (dicts h ! a)"
  let ?i = "length pre"
  have "?i < ?i + length (w # ws)" by simp
  from upt_conv_Cons[OF this]
  have up: "[?i..<?i + length (w # ws)] = ?i # [Suc ?i..<Suc ?i + length ws]"
    by simp
  obtain r g1 where r: "rnd_random g = (r, g1)" by (cases "rnd_random g")
  have il: "?i < length (lists h ! ?wa)" using Cons.prems(2) by simp
  have wi: "lists h ! ?wa ! ?i = w" using Cons.prems(2) by simp
  show ?case
  proof (cases "r < mutation_rate")
    case False
    then have nsel: "\<not> r < 0.15" by (simp add: mutation_rate_def)
    have sv: "spec_mutate_value w g = (w, g1)"
      using r nsel by (simp add: spec_mutate_value_def)
    have pre': "lists h ! ?wa = (pre @ [w]) @ ws" using Cons.prems(2) by simp
    note ih = Cons.IH[OF Cons.prems(1) pre', of g1]
    have step: "mutate_weights a [?i..<?i + length (w # ws)] h g
                  = mutate_weights a [Suc ?i..<Suc ?i + length ws] h g1"
      unfolding up using r False by simp
    show ?thesis
      unfolding step using ih sv by (simp add: split_beta)
  next
    case True
    then have sel: "r < 0.15" by (simp add: mutation_rate_def)
    obtain d g2 where d: "rnd_uniform (- mutation_strength) mutation_strength g1 = (d, g2)"
      by (cases "rnd_uniform (- mutation_strength) mutation_strength g1")
    then have d': "rnd_uniform (-0.3) 0.3 g1 = (d, g2)" by (simp add: mutation_strength_def)
    define h1 where "h1 = set_weight h a ?i (get_weight h a ?i + d)"
    define h2 where "h2 = set_weight h1 a ?i (max (-3.0) (min 3.0 (get_weight h1 a ?i)))"
    let ?c = "max (-3.0) (min 3.0 (w + d))"
    have sv: "spec_mutate_value w g = (?c, g2)"
      using r sel d' by (simp add: spec_mutate_value_def)
    have l2: "lists h2 ! ?wa = (pre @ [?c]) @ ws"
      using two_writes[OF Cons.prems(1) il h1_def h2_def] Cons.prems(2) wi by simp
    have d2: "dicts h2 = dicts h" by (simp add: h2_def h1_def)
    have n2: "length (lists h2) = length (lists h)" by (simp add: h2_def h1_def)
    have wf2: "fst (dicts h2 ! a) < length (lists h2)"
      using Cons.prems(1) by (simp add: d2 n2)
    have l2': "lists h2 ! fst (dicts h2 ! a) = (pre @ [?c]) @ ws" using l2 by (simp add: d2)
    note ih = Cons.IH[OF wf2 l2', of g2]
    have step: "mutate_weights a [?i..<?i + length (w # ws)] h g
                  = mutate_weights a [Suc ?i..<Suc ?i + length ws] h2 g2"
      unfolding up using r True d by (simp add: Let_def h1_def h2_def)
    show ?thesis
      unfolding step using ih sv by (simp add: split_beta d2 n2)
  qed
qed

lemma mutate_brain_refines:
  assumes "brain_at h a = Some v"
  shows "brain_at (fst (mutate_brain a h g)) a = Some (fst (spec_mutate_brain v g))
         \<and> snd (mutate_brain a h g) = snd (spec_mutate_brain v g)"
proof -
  let ?wa = "fst (dicts h ! a)"
  from assms have wf: "a < length (dicts h)" "?wa < length (lists h)"
    and v: "v = (lists h ! ?wa, snd (dicts h ! a))"
    by (auto simp: brain_at_def split: if_splits)
  let ?ws = "lists h ! ?wa"
  let ?b = "snd (dicts h ! a)"
  obtain h1 g1 where w: "mutate_weights a [0..<length ?ws] h g = (h1, g1)"
    by (cases "mutate_weights a [0..<length ?ws] h g")
  have "lists h ! ?wa = [] @ ?ws" by simp
  from mutate_weights_values[OF wf(2) this, of g] w
  have h1: "dicts h1 = dicts h" "length (lists h1) = length (lists h)"
    "lists h1 ! ?wa = fst (spec_mutate_values ?ws g)" "g1 = snd (spec_mutate_values ?ws g)"
    by simp_all
  obtain r g2 where r: "rnd_random g1 = (r, g2)" by (cases "rnd_random g1")
  have a1: "a < length (dicts h1)" using wf(1) h1(1) by simp
  have b1: "get_bias h1 a = ?b" by (simp add: get_bias_def h1(1))
  show ?thesis
  proof (cases "r < mutation_rate")
    case False
    then have nsel: "\<not> r < 0.15" by (simp add: mutation_rate_def)
    have m: "mutate_brain a h g = (h1, g2)"
      using w r False by (simp add: mutate_brain_def)
    have sv: "spec_mutate_value ?b g1 = (?b, g2)"
      using r nsel by (simp add: spec_mutate_value_def)
    have "brain_at h1 a = Some (fst (spec_mutate_values ?ws g), ?b)"
      using wf h1 by (simp add: brain_at_def)
    then show ?thesis
      using m sv h1(4) by (simp add: spec_mutate_brain_def v split_beta)
  next
    case True
    then have sel: "r < 0.15" by (simp add: mutation_rate_def)
    obtain d g3 where d: "rnd_uniform (- mutation_strength) mutation_strength g2 = (d, g3)"
      by (cases "rnd_uniform (- mutation_strength) mutation_strength g2")
    then have d': "rnd_uniform (-0.3) 0.3 g2 = (d, g3)" by (simp add: mutation_strength_def)
    define h2 where "h2 = set_bias h1 a (get_bias h1 a + d)"
    define h3 where "h3 = set_bias h2 a (max (-3.0) (min 3.0 (get_bias h2 a)))"
    have m: "mutate_brain a h g = (h3, g3)"
      using w r True d by (simp add: mutate_brain_def Let_def h2_def h3_def)
    let ?c = "max (-3.0) (min 3.0 (?b + d))"
    have sv: "spec_mutate_value ?b g1 = (?c, g3)"
      using r sel d' by (simp add: spec_mutate_value_def)
    have a2: "a < length (dicts h2)" using a1 by (simp add: h2_def)
    have d2: "dicts h2 ! a = (?wa, ?b + d)"
      unfolding h2_def using set_bias_same[OF a1] by (simp add: b1 h1(1))
    have d3: "dicts h3 ! a = (?wa, ?c)"
      unfolding h3_def using set_bias_same[OF a2] d2 by (simp add: get_bias_def)
    have l3: "lists h3 = lists h1" by (simp add: h3_def h2_def)
    have n3: "length (dicts h3) = length (dicts h1)" by (simp add: h3_def h2_def)
    have "brain_at h3 a = Some (fst (spec_mutate_values ?ws g), ?c)"
      using wf h1 d3 l3 n3 by (simp add: brain_at_def)
    then show ?thesis
      using m sv h1(4) by (simp add: spec_mutate_brain_def v split_beta)
  qed
qed

lemma spec_mutate_values_length: "length (fst (spec_mutate_values ws g)) = length ws"
  by (induction ws arbitrary: g) (simp_all add: split_beta)

text \<open>
  C7 (as the claim states it, refuted). The clamp is applied only to a component the step
  has selected. A brain with the weights \<open>5, 0, 0, 0\<close> and a generator whose draws are
  all \<open>1/2\<close>, so that nothing is selected, comes out of one mutation step as it went in:
  its first weight is still \<open>5\<close>, outside \<open>[-3.0, 3.0]\<close>.
\<close>

theorem mutate_brain_unclamped_counterexample:
  "brain_at
     (fst (mutate_brain 0 \<lparr>dicts = [(0, 0)], lists = [[5, 0, 0, 0]]\<rparr>
             \<lparr>floats = sconst (1/2), ints = sconst 0\<rparr>)) 0
     = Some ([5, 0, 0, 0], 0)
   \<and> \<not> in_clamp 5
   \<and> \<not> brain_in_clamp
         (fst (mutate_brain 0 \<lparr>dicts = [(0, 0)], lists = [[5, 0, 0, 0]]\<rparr>
                 \<lparr>floats = sconst (1/2), ints = sconst 0\<rparr>)) 0"
  by (simp add: mutate_brain_def upt_rec rnd_random_def mutation_rate_def brain_at_def
        brain_in_clamp_def in_clamp_def)

text \<open>
  C7 (amended). For every brain, one mutation step of the code yields exactly the brain,
  and leaves exactly the generator, that the mutation of the specification yields on the
  brain's values: the four weights in turn and then the bias, each selected when a draw
  is below \<open>0.15\<close>. A selected component becomes its old value plus a draw from
  \<open>[-0.3, 0.3]\<close>, clamped to \<open>[-3.0, 3.0]\<close>, and so lies within \<open>[-3.0, 3.0]\<close> whatever
  it was; a component that is not selected keeps its value. Hence a brain whose weights
  and bias lie within \<open>[-3.0, 3.0]\<close> before the step, as those of every brain the
  program makes do, has them within \<open>[-3.0, 3.0]\<close> after it.
\<close>

theorem mutate_brain_effect:
  "(brain_at h a = Some v \<longrightarrow>
      brain_at (fst (mutate_brain a h g)) a = Some (fst (spec_mutate_brain v g))
      \<and> snd (mutate_brain a h g) = snd (spec_mutate_brain v g)
      \<and> length (fst (fst (spec_mutate_brain v g))) = length (fst v))
   \<and> (shd (floats gc) < 0.15 \<longrightarrow> in_clamp (fst (spec_mutate_value w gc)))
   \<and> (shd (floats gc) < 0.15 \<and> 0 \<le> shd (stl (floats gc)) \<and> shd (stl (floats gc)) \<le> 1 \<longrightarrow>
        (\<exists>d. -0.3 \<le> d \<and> d \<le> 0.3
             \<and> fst (spec_mutate_value w gc) = max (-3.0) (min 3.0 (w + d))))
   \<and> (\<not> shd (floats gc) < 0.15 \<longrightarrow> fst (spec_mutate_value w gc) = w)
   \<and> (brain_in_clamp h a \<longrightarrow> brain_in_clamp (fst (mutate_brain a h g)) a)"
proof -
  have ref: "brain_at h a = Some v \<longrightarrow>
      brain_at (fst (mutate_brain a h g)) a = Some (fst (spec_mutate_brain v g))
      \<and> snd (mutate_brain a h g) = snd (spec_mutate_brain v g)
      \<and> length (fst (fst (spec_mutate_brain v g))) = length (fst v)"
  proof
    assume b: "brain_at h a = Some v"
    have "length (fst (fst (spec_mutate_brain v g))) = length (fst v)"
      by (simp add: spec_mutate_brain_def split_beta spec_mutate_values_length)
    with mutate_brain_refines[OF b, of g]
    show "brain_at (fst (mutate_brain a h g)) a = Some (fst (spec_mutate_brain v g))
      \<and> snd (mutate_brain a h g) = snd (spec_mutate_brain v g)
      \<and> length (fst (fst (spec_mutate_brain v g))) = length (fst v)"
      by simp
  qed
  have sel: "shd (floats gc) < 0.15 \<longrightarrow> in_clamp (fst (spec_mutate_value w gc))"
    by (simp add: spec_mutate_value_cases in_clamp_def)
  have drawn: "shd (floats gc) < 0.15 \<and> 0 \<le> shd (stl (floats gc)) \<and> shd (stl (floats gc)) \<le> 1
        \<longrightarrow> (\<exists>d. -0.3 \<le> d \<and> d \<le> 0.3
             \<and> fst (spec_mutate_value w gc) = max (-3.0) (min 3.0 (w + d)))"
  proof
    assume s: "shd (floats gc) < 0.15 \<and> 0 \<le> shd (stl (floats gc)) \<and> shd (stl (floats gc)) \<le> 1"
    let ?d = "-0.3 + 0.6 * shd (stl (floats gc))"
    have "-0.3 \<le> ?d" "?d \<le> 0.3" using s by simp_all
    moreover have "fst (spec_mutate_value w gc) = max (-3.0) (min 3.0 (w + ?d))"
      using s by (simp add: spec_mutate_value_cases)
    ultimately show "\<exists>d. -0.3 \<le> d \<and> d \<le> 0.3
             \<and> fst (spec_mutate_value w gc) = max (-3.0) (min 3.0 (w + d))"
      by blast
  qed
  have kept: "\<not> shd (floats gc) < 0.15 \<longrightarrow> fst (spec_mutate_value w gc) = w"
    by (simp add: spec_mutate_value_cases)
  have inv: "brain_in_clamp h a \<longrightarrow> brain_in_clamp (fst (mutate_brain a h g)) a"
    using mutate_brain_keeps_clamp by blast
  from ref sel drawn kept inv show ?thesis by blast
qed

theorem mutate_brain_effect_witness:
  "brain_at \<lparr>dicts = [(0, 0)], lists = [[2.9, 0, 0, 0]]\<rparr> 0 = Some ([2.9, 0, 0, 0], 0)
   \<and> brain_at
        (fst (mutate_brain 0 \<lparr>dicts = [(0, 0)], lists = [[2.9, 0, 0, 0]]\<rparr>
                \<lparr>floats = 1/10 ## 9/10 ## sconst (1/2), ints = sconst 0\<rparr>)) 0
       = Some ([3, 0, 0, 0], 0)
   \<and> shd (floats \<lparr>floats = 1/10 ## 9/10 ## sconst (1/2), ints = sconst 0\<rparr>) < 0.15
   \<and> fst (spec_mutate_value 2.9 \<lparr>floats = 1/10 ## 9/10 ## sconst (1/2), ints = sconst 0\<rparr>) = 3
   \<and> in_clamp (fst (spec_mutate_value 2.9
                      \<lparr>floats = 1/10 ## 9/10 ## sconst (1/2), ints = sconst 0\<rparr>))
   \<and> \<not> shd (floats \<lparr>floats = sconst (1/2), ints = sconst 0\<rparr>) < 0.15
   \<and> fst (spec_mutate_value 5 \<lparr>floats = sconst (1/2), ints = sconst 0\<rparr>) = 5
   \<and> brain_in_clamp \<lparr>dicts = [(0, 0)], lists = [[2.9, 0, 0, 0]]\<rparr> 0
   \<and> brain_in_clamp
        (fst (mutate_brain 0 \<lparr>dicts = [(0, 0)], lists = [[2.9, 0, 0, 0]]\<rparr>
                \<lparr>floats = 1/10 ## 9/10 ## sconst (1/2), ints = sconst 0\<rparr>)) 0"
proof -
  let ?h = "\<lparr>dicts = [(0, 0)], lists = [[2.9, 0, 0, 0]]\<rparr>"
  let ?g = "\<lparr>floats = 1/10 ## 9/10 ## sconst (1/2), ints = sconst 0\<rparr>"
  let ?k = "\<lparr>floats = sconst (1/2), ints = sconst 0\<rparr>"
  note t1 = mutate_brain_effect
              [where h = ?h and a = 0 and v = "([2.9, 0, 0, 0], 0)" and g = ?g
                 and gc = ?g and w = "2.9"]
  note t2 = mutate_brain_effect [where gc = ?k and w = 5]
  have b: "brain_at ?h 0 = Some ([2.9, 0, 0, 0], 0)"
    by (simp add: brain_at_def)
  have sp: "fst (spec_mutate_brain ([2.9, 0, 0, 0], 0) ?g) = ([3, 0, 0, 0], 0)"
    by (simp add: spec_mutate_brain_def spec_mutate_value_cases)
  have r: "brain_at (fst (mutate_brain 0 ?h ?g)) 0 = Some ([3, 0, 0, 0], 0)"
    using t1 b sp by simp
  have s1: "shd (floats ?g) < 0.15" by simp
  have v1: "fst (spec_mutate_value 2.9 ?g) = 3"
    by (simp add: spec_mutate_value_cases)
  have c1: "in_clamp (fst (spec_mutate_value 2.9 ?g))"
    using t1 s1 by blast
  have s2: "\<not> shd (floats ?k) < 0.15" by simp
  have v2: "fst (spec_mutate_value 5 ?k) = 5"
    using t2 s2 by blast
  have i0: "brain_in_clamp ?h 0"
    by (simp add: brain_in_clamp_def brain_at_def in_clamp_def)
  have i1: "brain_in_clamp (fst (mutate_brain 0 ?h ?g)) 0"
    using t1 i0 by blast
  show ?thesis
    by (rule conjI[OF b conjI[OF r conjI[OF s1 conjI[OF v1 conjI[OF c1
          conjI[OF s2 conjI[OF v2 conjI[OF i0 i1]]]]]]]])
qed

subsection \<open>The brains the program makes\<close>

text \<open>
  A brain made by \<open>create_random_brain\<close> has four weights in \<open>[-2, 2]\<close> and a bias in
  \<open>[-1, 1]\<close>, so it is within the clamp range.
\<close>

lemma uniform_point:
  assumes "0 \<le> u" "u \<le> 1" "a \<le> b"
  shows "a \<le> a + (b - a) * u" and "a + (b - a) * u \<le> (b::real)"
proof -
  have "0 \<le> (b - a) * u" using assms by simp
  then show "a \<le> a + (b - a) * u" by simp
  have "(b - a) * u \<le> (b - a) * 1" using assms by (intro mult_left_mono) auto
  then show "a + (b - a) * u \<le> b" by simp
qed

lemma unit_draws_Suc:
  "unit_draws (Suc n) g \<Longrightarrow>
     0 \<le> shd (floats g) \<and> shd (floats g) \<le> 1 \<and> unit_draws n (g\<lparr>floats := stl (floats g)\<rparr>)"
  unfolding unit_draws_def
proof (intro conjI allI impI)
  assume a: "\<forall>k<Suc n. 0 \<le> floats g !! k \<and> floats g !! k \<le> 1"
  from a[rule_format, of 0] show "0 \<le> shd (floats g)" "shd (floats g) \<le> 1" by simp_all
  fix k assume "k < n"
  with a[rule_format, of "Suc k"]
  show "0 \<le> floats (g\<lparr>floats := stl (floats g)\<rparr>) !! k"
    "floats (g\<lparr>floats := stl (floats g)\<rparr>) !! k \<le> 1" by simp_all
qed

lemma uniform_list_bounds:
  assumes "uniform_list n a b g = (us, g')" and "a \<le> b" and "unit_draws (n + m) g"
  shows "length us = n \<and> (\<forall>u\<in>set us. a \<le> u \<and> u \<le> b) \<and> unit_draws m g'"
  using assms
proof (induction n arbitrary: g us g')
  case 0
  then show ?case by simp
next
  case (Suc n)
  from Suc.prems(3) have ud: "unit_draws (Suc (n + m)) g" by simp
  note hd = unit_draws_Suc[OF ud]
  let ?g1 = "g\<lparr>floats := stl (floats g)\<rparr>"
  obtain us1 g2 where r: "uniform_list n a b ?g1 = (us1, g2)"
    by (cases "uniform_list n a b ?g1")
  from Suc.prems(1) r have us: "us = (a + (b - a) * shd (floats g)) # us1" and g': "g' = g2"
    by (simp_all add: rnd_uniform_def rnd_random_def)
  from Suc.IH[OF r Suc.prems(2)] hd
  have ih: "length us1 = n" "\<forall>u\<in>set us1. a \<le> u \<and> u \<le> b" "unit_draws m g2" by auto
  show ?case
    using ih hd uniform_point[of "shd (floats g)" a b] Suc.prems(2) by (simp add: us g')
qed

lemma create_random_brain_in_clamp:
  assumes "unit_draws 5 g" and "create_random_brain h g = (a, h', g')"
  shows "brain_in_clamp h' a"
proof -
  obtain ws g1 where w: "uniform_list 4 (-2.0) 2.0 g = (ws, g1)"
    by (cases "uniform_list 4 (-2.0) 2.0 g")
  from uniform_list_bounds[OF w, of 1] assms(1)
  have ws: "length ws = 4" "\<forall>u\<in>set ws. -2 \<le> u \<and> u \<le> 2" and u1: "unit_draws 1 g1"
    by auto
  from unit_draws_Suc[of 0 g1] u1
  have s: "0 \<le> shd (floats g1)" "shd (floats g1) \<le> 1" by simp_all
  from uniform_point[OF s, of "-1" 1]
  have b: "-1 \<le> -1 + (1 - (-1)) * shd (floats g1)" "-1 + (1 - (-1)) * shd (floats g1) \<le> 1"
    by simp_all
  have wsc: "list_all in_clamp ws"
    using ws(2) by (auto simp: list_all_iff in_clamp_def)
  from assms(2) w have
    "a = length (dicts h)"
    "dicts h' = dicts h @ [(length (lists h), -1 + (1 - (-1)) * shd (floats g1))]"
    "lists h' = lists h @ [ws]"
    by (auto simp: create_random_brain_def alloc_list_def alloc_dict_def rnd_uniform_def
          rnd_random_def)
  then show ?thesis
    using ws(1) wsc b by (simp add: brain_in_clamp_def brain_at_def in_clamp_def)
qed

section \<open>The next generation\<close>

subsection \<open>The size of the population\<close>

declare fill_loop.simps [simp del]

lemma sample_pool_result_length: "sample_pool pool n k g = (xs, g') \<Longrightarrow> length xs = k"
  by (induction k arbitrary: pool n g xs g') (auto split: prod.splits)

lemma sample_pool_length: "length (fst (sample_pool pool n k g)) = k"
  by (cases "sample_pool pool n k g") (simp add: sample_pool_result_length)

lemma rnd_sample_length: "length (fst (rnd_sample population k g)) = k"
  by (simp add: rnd_sample_def sample_pool_length)

lemma sort_desc_length [simp]: "length (sort_desc ps) = length ps"
  by (simp add: sort_desc_def)

lemma sort_desc_Nil_iff [simp]: "sort_desc ps = [] \<longleftrightarrow> ps = []"
  using sort_desc_length[of ps] by (metis length_0_conv)

lemma tournament_selection_total:
  assumes "prs \<noteq> []"
  shows "\<exists>parent g'. tournament_selection prs g = Inr (parent, g')"
proof -
  obtain t g' where t: "rnd_sample prs (min 3 (length prs)) g = (t, g')"
    by (cases "rnd_sample prs (min 3 (length prs)) g")
  have "length t = min 3 (length prs)"
    using rnd_sample_length[of prs "min 3 (length prs)" g] t by simp
  with assms have "t \<noteq> []" by (cases prs) auto
  then have "sort_desc t \<noteq> []" by simp
  then show ?thesis
    by (auto simp: tournament_selection_def Let_def t split: list.splits)
qed

lemma elites_loop_length:
  "elites_loop prs js nb h g = (nb', h', g') \<Longrightarrow> length nb' = length nb + length js"
  by (induction js arbitrary: nb h g) (auto simp: Let_def split: prod.splits)

lemma fill_loop_length:
  assumes "prs \<noteq> [] \<or> n \<le> length nb"
  shows "\<exists>nb' h' g'. fill_loop n prs nb h g = Inr (nb', h', g')
            \<and> length nb' = max n (length nb)"
  using assms
proof (induction n prs nb h g rule: fill_loop.induct)
  case (1 n prs nb h g)
  show ?case
  proof (cases "length nb < n")
    case False
    then show ?thesis by (simp add: fill_loop.simps max_def)
  next
    case True
    with "1.prems" have ne: "prs \<noteq> []" by auto
    from tournament_selection_total[OF ne] obtain parent g1 where
      t: "tournament_selection prs g = Inr (parent, g1)" by blast
    obtain child h1 g2 where c: "Bird_init h g1 = (child, h1, g2)"
      by (cases "Bird_init h g1") auto
    obtain a h2 where cp: "Bird_copy_brain h1 parent = (a, h2)"
      by (cases "Bird_copy_brain h1 parent")
    obtain h3 g3 where m: "mutate_brain a h2 g2 = (h3, g3)"
      by (cases "mutate_brain a h2 g2")
    have "\<exists>nb' h' g'. fill_loop n prs (nb @ [child\<lparr>brain := a\<rparr>]) h3 g3 = Inr (nb', h', g')
            \<and> length nb' = max n (length (nb @ [child\<lparr>brain := a\<rparr>]))"
      using "1.IH"[OF True t refl c[symmetric] refl cp[symmetric] m[symmetric]] ne
      by simp
    moreover have "fill_loop n prs nb h g = fill_loop n prs (nb @ [child\<lparr>brain := a\<rparr>]) h3 g3"
      using True t c cp m by (subst fill_loop.simps) simp
    ultimately show ?thesis using True by (auto simp: max_def)
  qed
qed

text \<open>
  C9. Generational replacement keeps the size of the population: called on a population
  of \<open>population_size\<close> birds with one fitness value for each, \<open>create_next_generation\<close>
  raises nothing and leaves \<open>population_size\<close> birds, the elites and then the offspring of
  the tournaments. The size is \<open>20\<close> in the program.
\<close>

theorem create_next_generation_size:
  assumes "length (birds ai) = population_size ai"
    and "length fitness_scores = length (birds ai)"
  shows "\<exists>ai' h' g'. create_next_generation ai fitness_scores h g = Inr (ai', h', g')
           \<and> length (birds ai') = length (birds ai)
           \<and> population_size ai' = population_size ai"
proof -
  let ?prs = "sort_desc (zip (birds ai) fitness_scores)"
  have len: "length ?prs = population_size ai" using assms by simp
  obtain nb h1 g1 where e: "elites_loop ?prs [0..<min 3 (length ?prs)] [] h g = (nb, h1, g1)"
    by (cases "elites_loop ?prs [0..<min 3 (length ?prs)] [] h g") auto
  from elites_loop_length[OF e] have nbl: "length nb = min 3 (population_size ai)"
    using len by simp
  have "?prs \<noteq> [] \<or> population_size ai \<le> length nb"
    using len nbl by (cases "?prs") auto
  from fill_loop_length[OF this, of h1 g1] obtain nb' h' g' where
    f: "fill_loop (population_size ai) ?prs nb h1 g1 = Inr (nb', h', g')"
    and l: "length nb' = max (population_size ai) (length nb)" by blast
  have "create_next_generation ai fitness_scores h g = Inr (ai\<lparr>birds := nb'\<rparr>, h', g')"
    using e f by (simp add: create_next_generation_def Let_def)
  moreover have "length nb' = length (birds ai)"
    using l nbl assms by simp
  ultimately show ?thesis by simp
qed

theorem create_next_generation_size_witness:
  "length (birds \<lparr>population_size = 20, generation = 1, best_score = 0,
                   birds = replicate 20 \<lparr>bird_x = 100, bird_y = 300, velocity = 0,
                                           alive = False, score = 0, fitness = 0, brain = 0\<rparr>,
                   pipes = []\<rparr>)
     = population_size \<lparr>population_size = 20, generation = 1, best_score = 0,
                   birds = replicate 20 \<lparr>bird_x = 100, bird_y = 300, velocity = 0,
                                           alive = False, score = 0, fitness = 0, brain = 0\<rparr>,
                   pipes = []\<rparr>
   \<and> (\<exists>ai' h' g'.
         create_next_generation
           \<lparr>population_size = 20, generation = 1, best_score = 0,
             birds = replicate 20 \<lparr>bird_x = 100, bird_y = 300, velocity = 0,
                                     alive = False, score = 0, fitness = 0, brain = 0\<rparr>,
             pipes = []\<rparr>
           (replicate 20 0)
           \<lparr>dicts = [(0, 1/2)], lists = [[1, -1, 3, 0]]\<rparr>
           \<lparr>floats = sconst (1/10), ints = sconst 0\<rparr> = Inr (ai', h', g')
         \<and> length (birds ai') = 20)"
  using create_next_generation_size
          [of "\<lparr>population_size = 20, generation = 1, best_score = 0,
                birds = replicate 20 \<lparr>bird_x = 100, bird_y = 300, velocity = 0,
                                        alive = False, score = 0, fitness = 0, brain = 0\<rparr>,
                pipes = []\<rparr>"
              "replicate 20 0"
              "\<lparr>dicts = [(0, 1/2)], lists = [[1, -1, 3, 0]]\<rparr>"
              "\<lparr>floats = sconst (1/10), ints = sconst 0\<rparr>"]
  by auto

subsection \<open>Elitism\<close>

lemma heap_ext_refl: "heap_ext h h"
  by (simp add: heap_ext_def)

lemma heap_ext_trans: "heap_ext h1 h2 \<Longrightarrow> heap_ext h2 h3 \<Longrightarrow> heap_ext h1 h3"
  by (auto simp: heap_ext_def)

lemma heap_ext_brain_at:
  "heap_ext h h' \<Longrightarrow> brain_at h a = Some v \<Longrightarrow> brain_at h' a = Some v"
  by (auto simp: heap_ext_def brain_at_def split: if_splits)

lemma Bird_init_heap:
  assumes "Bird_init h g = (b, h1, g1)"
  shows "\<exists>ws bias. dicts h1 = dicts h @ [(length (lists h), bias)] \<and> lists h1 = lists h @ [ws]"
  using assms
  by (auto simp: Bird_init_def create_random_brain_def alloc_list_def alloc_dict_def
        split: prod.splits)

lemma Bird_copy_brain_heap:
  assumes "Bird_copy_brain h b = (a, h2)"
  shows "a = length (dicts h)"
    and "dicts h2 = dicts h @ [(length (lists h), snd (dicts h ! brain b))]"
    and "lists h2 = lists h @ [lists h ! fst (dicts h ! brain b)]"
  using assms
  by (auto simp: Bird_copy_brain_def alloc_list_def alloc_dict_def get_bias_def
        split: prod.splits)

text \<open>A new bird with a copy of the brain of \<open>src\<close>: \<open>Bird()\<close>, then \<open>copy_brain\<close>.\<close>

lemma spawn_copy:
  assumes i: "Bird_init h g = (nb, h1, g1)" and c: "Bird_copy_brain h1 src = (a, h2)"
  shows "heap_ext h h2"
    and "fresh_brain h h2 a"
    and "brain_at h (brain src) = Some v \<Longrightarrow> brain_at h2 a = Some v"
proof -
  from Bird_init_heap[OF i] obtain ws bias where
    h1: "dicts h1 = dicts h @ [(length (lists h), bias)]" "lists h1 = lists h @ [ws]"
    by blast
  note h2 = Bird_copy_brain_heap[OF c]
  show "heap_ext h h2"
    by (simp add: heap_ext_def h2 h1 nth_append)
  show "fresh_brain h h2 a"
    by (simp add: fresh_brain_def h2 h1 nth_append)
  assume "brain_at h (brain src) = Some v"
  then have v: "brain src < length (dicts h)" "fst (dicts h ! brain src) < length (lists h)"
    "v = (lists h ! fst (dicts h ! brain src), snd (dicts h ! brain src))"
    by (auto simp: brain_at_def split: if_splits)
  show "brain_at h2 a = Some v"
    using v by (simp add: brain_at_def h2 h1 nth_append)
qed

lemma new_birds_ok_append:
  assumes ok: "new_birds_ok h0 h bs" and e0: "heap_ext h0 h" and e: "heap_ext h h2"
    and f: "fresh_brain h h2 a"
  shows "new_birds_ok h0 h2 (bs @ [nb\<lparr>brain := a\<rparr>])"
proof -
  have old: "\<forall>b\<in>set bs. brain b < length (dicts h) \<and> dicts h2 ! brain b = dicts h ! brain b
               \<and> fst (dicts h ! brain b) < length (lists h)"
    using ok e by (auto simp: new_birds_ok_def fresh_brain_def heap_ext_def)
  have fr: "\<forall>b\<in>set bs. fresh_brain h0 h2 (brain b)"
    using ok e old by (auto simp: new_birds_ok_def fresh_brain_def heap_ext_def)
  have fa: "fresh_brain h0 h2 a"
    using f e0 by (auto simp: fresh_brain_def heap_ext_def)
  have m: "map (\<lambda>b. fst (dicts h2 ! brain b)) bs = map (\<lambda>b. fst (dicts h ! brain b)) bs"
    using old by simp
  have d2: "distinct (map (\<lambda>b. fst (dicts h2 ! brain b)) bs)"
    unfolding m using ok by (simp add: new_birds_ok_def)
  have na: "a \<notin> brain ` set bs"
    using old f by (auto simp: fresh_brain_def)
  have nw: "fst (dicts h2 ! a) \<notin> (\<lambda>b. fst (dicts h2 ! brain b)) ` set bs"
    using old f by (auto simp: fresh_brain_def)
  have d1: "distinct (map brain bs)"
    using ok by (simp add: new_birds_ok_def)
  show ?thesis
    using fr fa d1 d2 na nw by (simp add: new_birds_ok_def)
qed

text \<open>Mutating a brain made after \<open>h\<close> leaves \<open>h\<close> and the shape of the heap alone.\<close>

lemma mutate_fresh:
  assumes f: "fresh_brain h h2 a" and e: "heap_ext h h2" and m: "mutate_brain a h2 g = (h3, g3)"
  shows "heap_ext h h3"
    and "length (dicts h3) = length (dicts h2)"
    and "length (lists h3) = length (lists h2)"
    and "\<forall>a'. fst (dicts h3 ! a') = fst (dicts h2 ! a')"
proof -
  from f have wf: "a < length (dicts h2)" "fst (dicts h2 ! a) < length (lists h2)"
    and ge: "length (dicts h) \<le> a" "length (lists h) \<le> fst (dicts h2 ! a)"
    by (auto simp: fresh_brain_def)
  note inv = mutate_brain_inv[OF wf m]
  show "length (dicts h3) = length (dicts h2)" by (rule inv(1))
  show "length (lists h3) = length (lists h2)" by (rule inv(2))
  show "\<forall>a'. fst (dicts h3 ! a') = fst (dicts h2 ! a')"
    using inv(3,4) by metis
  show "heap_ext h h3"
    using e ge inv(1,2,4,5) by (auto simp: heap_ext_def)
qed

lemma new_birds_ok_shape:
  assumes "new_birds_ok h0 h2 bs" and "length (dicts h3) = length (dicts h2)"
    and "length (lists h3) = length (lists h2)"
    and "\<forall>a'. fst (dicts h3 ! a') = fst (dicts h2 ! a')"
  shows "new_birds_ok h0 h3 bs"
  using assms by (simp add: new_birds_ok_def fresh_brain_def)


lemma take_Suc_snoc:
  assumes "take (Suc n) xs = ys @ [x]" and "length ys = n"
  shows "take n xs = ys" and "xs ! n = x"
proof -
  have "take n xs = take n (take (Suc n) xs)" by simp
  also have "\<dots> = ys" using assms by simp
  finally show "take n xs = ys" .
  have "n < length xs"
    using assms by (metis length_append_singleton length_take lessI min_less_iff_conj)
  then have "xs ! n = take (Suc n) xs ! n" by simp
  also have "\<dots> = x" using assms by (simp add: nth_append)
  finally show "xs ! n = x" .
qed

lemma elites_loop_inv:
  assumes "elites_loop prs js nb h g = (nb', h', g')"
    and "heap_ext h0 h" and "new_birds_ok h0 h nb"
    and "\<forall>i\<in>set js. brain_at h0 (brain (fst (prs ! i))) \<noteq> None"
  shows "heap_ext h h' \<and> new_birds_ok h0 h' nb' \<and> length nb' = length nb + length js
         \<and> take (length nb) nb' = nb
         \<and> (\<forall>k<length js. brain_at h' (brain (nb' ! (length nb + k)))
                             = brain_at h0 (brain (fst (prs ! (js ! k)))))"
  using assms
proof (induction js arbitrary: nb h g)
  case Nil
  then show ?case by (simp add: heap_ext_refl)
next
  case (Cons i js)
  let ?src = "fst (prs ! i)"
  obtain new_bird h1 g1 where init: "Bird_init h g = (new_bird, h1, g1)"
    by (cases "Bird_init h g") auto
  obtain a h2 where cp: "Bird_copy_brain h1 ?src = (a, h2)"
    by (cases "Bird_copy_brain h1 ?src")
  let ?nb = "nb @ [new_bird\<lparr>brain := a\<rparr>]"
  from Cons.prems(1) init cp have rec: "elites_loop prs js ?nb h2 g1 = (nb', h', g')"
    by (simp add: Let_def)
  from Cons.prems(4) obtain v where v0: "brain_at h0 (brain ?src) = Some v" by auto
  have vh: "brain_at h (brain ?src) = Some v"
    using heap_ext_brain_at[OF Cons.prems(2) v0] .
  note sp = spawn_copy[OF init cp]
  have va: "brain_at h2 a = Some v" using sp(3)[OF vh] .
  have e02: "heap_ext h0 h2" using heap_ext_trans[OF Cons.prems(2) sp(1)] .
  have ok2: "new_birds_ok h0 h2 ?nb"
    using new_birds_ok_append[OF Cons.prems(3) Cons.prems(2) sp(1) sp(2)] .
  have rest: "\<forall>i\<in>set js. brain_at h0 (brain (fst (prs ! i))) \<noteq> None"
    using Cons.prems(4) by simp
  from Cons.IH[OF rec e02 ok2 rest] have ih:
    "heap_ext h2 h'" "new_birds_ok h0 h' nb'" "length nb' = length ?nb + length js"
    "take (length ?nb) nb' = ?nb"
    "\<forall>k<length js. brain_at h' (brain (nb' ! (length ?nb + k)))
                      = brain_at h0 (brain (fst (prs ! (js ! k))))"
    by blast+
  have tk: "take (Suc (length nb)) nb' = nb @ [new_bird\<lparr>brain := a\<rparr>]"
    using ih(4) by simp
  note sn = take_Suc_snoc[OF tk refl]
  have first: "brain_at h' (brain (nb' ! length nb)) = brain_at h0 (brain ?src)"
    using heap_ext_brain_at[OF ih(1) va] v0 by (simp add: sn(2))
  have all: "\<forall>k<length (i # js). brain_at h' (brain (nb' ! (length nb + k)))
                      = brain_at h0 (brain (fst (prs ! ((i # js) ! k))))"
  proof (intro allI impI)
    fix k assume k: "k < length (i # js)"
    show "brain_at h' (brain (nb' ! (length nb + k)))
            = brain_at h0 (brain (fst (prs ! ((i # js) ! k))))"
    proof (cases k)
      case 0
      then show ?thesis using first by simp
    next
      case (Suc k')
      with k have "k' < length js" by simp
      with ih(5) show ?thesis by (simp add: Suc)
    qed
  qed
  show ?case
    using heap_ext_trans[OF sp(1) ih(1)] ih(2) ih(3) sn(1) all by simp
qed

lemma fill_loop_inv:
  assumes "fill_loop n prs nb h g = Inr (nb', h', g')"
    and "heap_ext h0 h" and "new_birds_ok h0 h nb"
  shows "heap_ext h h' \<and> new_birds_ok h0 h' nb' \<and> take (length nb) nb' = nb"
  using assms
proof (induction n prs nb h g rule: fill_loop.induct)
  case (1 n prs nb h g)
  show ?case
  proof (cases "length nb < n")
    case False
    with "1.prems"(1) have "nb' = nb" "h' = h"
      by (simp_all add: fill_loop.simps)
    with "1.prems" show ?thesis by (simp add: heap_ext_refl)
  next
    case True
    from "1.prems"(1) True obtain parent g1 where
      t: "tournament_selection prs g = Inr (parent, g1)"
      by (subst (asm) fill_loop.simps) (auto split: sum.splits)
    obtain child h1 g2 where c: "Bird_init h g1 = (child, h1, g2)"
      by (cases "Bird_init h g1") auto
    obtain a h2 where cp: "Bird_copy_brain h1 parent = (a, h2)"
      by (cases "Bird_copy_brain h1 parent")
    obtain h3 g3 where m: "mutate_brain a h2 g2 = (h3, g3)"
      by (cases "mutate_brain a h2 g2")
    let ?nb = "nb @ [child\<lparr>brain := a\<rparr>]"
    have rec: "fill_loop n prs ?nb h3 g3 = Inr (nb', h', g')"
      using "1.prems"(1) True t c cp m by (subst (asm) fill_loop.simps) simp
    note sp = spawn_copy[OF c cp]
    note mf = mutate_fresh[OF sp(2) sp(1) m]
    have ok2: "new_birds_ok h0 h2 ?nb"
      using new_birds_ok_append[OF "1.prems"(3) "1.prems"(2) sp(1) sp(2)] .
    have ok3: "new_birds_ok h0 h3 ?nb"
      using new_birds_ok_shape[OF ok2 mf(2) mf(3) mf(4)] .
    have e03: "heap_ext h0 h3" using heap_ext_trans[OF "1.prems"(2) mf(1)] .
    from "1.IH"[OF True t refl c[symmetric] refl cp[symmetric] m[symmetric] rec e03 ok3]
    have ih: "heap_ext h3 h'" "new_birds_ok h0 h' nb'" "take (length ?nb) nb' = ?nb"
      by blast+
    have tk: "take (Suc (length nb)) nb' = nb @ [child\<lparr>brain := a\<rparr>]"
      using ih(3) by simp
    show ?thesis
      using heap_ext_trans[OF mf(1) ih(1)] ih(2) take_Suc_snoc(1)[OF tk refl] by simp
  qed
qed

lemma sort_desc_set [simp]: "set (sort_desc ps) = set ps"
  by (simp add: sort_desc_def)

lemma sort_desc_mset [simp]: "mset (sort_desc ps) = mset ps"
  by (simp add: sort_desc_def)

lemma sort_desc_ranked:
  assumes "i \<le> j" and "j < length ps"
  shows "snd (sort_desc ps ! j) \<le> snd (sort_desc ps ! i)"
proof -
  have "sorted (map (\<lambda>p. - snd p) (sort_desc ps))"
    by (simp add: sort_desc_def)
  then have "map (\<lambda>p. - snd p) (sort_desc ps) ! i \<le> map (\<lambda>p. - snd p) (sort_desc ps) ! j"
    using assms by (intro sorted_nth_mono) (simp_all add: sort_desc_def)
  then show ?thesis using assms by (simp add: sort_desc_def)
qed

text \<open>
  C8. Let the birds of generation N be ranked by the stable descending sort of their
  fitness values, and let every bird hold a reference to an allocated brain. Then for
  each of the first three ranks \<open>i\<close> (the first \<open>min 3 n\<close> of a smaller population) the
  bird at position \<open>i\<close> of the new population has, when \<open>create_next_generation\<close>
  returns, a brain with exactly the weights and the bias that the bird of rank \<open>i\<close> has:
  nothing has mutated it. No bird ranked after \<open>i\<close> has a higher fitness. The copy is
  independent: its dict and its list of weights are objects allocated during the call,
  which no bird of generation N refers to, the objects of generation N are left as they
  were, and no other bird of the new population shares the dict or the list.
\<close>

theorem elites_copied_verbatim:
  assumes run: "create_next_generation ai fitness_scores h g = Inr (ai', h', g')"
    and wf: "\<forall>b\<in>set (birds ai). brain_at h (brain b) \<noteq> None"
    and i: "i < min 3 (length (sort_desc (zip (birds ai) fitness_scores)))"
  shows "i < length (birds ai')
         \<and> brain_at h' (brain (birds ai' ! i))
             = brain_at h (brain (fst (sort_desc (zip (birds ai) fitness_scores) ! i)))
         \<and> brain_at h' (brain (birds ai' ! i)) \<noteq> None
         \<and> fst (sort_desc (zip (birds ai) fitness_scores) ! i) \<in> set (birds ai)
         \<and> (\<forall>j. i \<le> j \<and> j < length (sort_desc (zip (birds ai) fitness_scores))
                \<longrightarrow> snd (sort_desc (zip (birds ai) fitness_scores) ! j)
                      \<le> snd (sort_desc (zip (birds ai) fitness_scores) ! i))
         \<and> mset (sort_desc (zip (birds ai) fitness_scores)) = mset (zip (birds ai) fitness_scores)
         \<and> heap_ext h h'
         \<and> fresh_brain h h' (brain (birds ai' ! i))
         \<and> (\<forall>j<length (birds ai'). j \<noteq> i \<longrightarrow>
               brain (birds ai' ! j) \<noteq> brain (birds ai' ! i)
               \<and> fst (dicts h' ! brain (birds ai' ! j)) \<noteq> fst (dicts h' ! brain (birds ai' ! i)))"
proof -
  let ?prs = "sort_desc (zip (birds ai) fitness_scores)"
  let ?js = "[0..<min 3 (length ?prs)]"
  obtain nb h1 g1 where e: "elites_loop ?prs ?js [] h g = (nb, h1, g1)"
    by (cases "elites_loop ?prs ?js [] h g") auto
  from run e obtain nb' where f: "fill_loop (population_size ai) ?prs nb h1 g1 = Inr (nb', h', g')"
    and ai': "ai' = ai\<lparr>birds := nb'\<rparr>"
    by (auto simp: create_next_generation_def Let_def split: sum.splits)
  have mem: "\<forall>k<length ?prs. fst (?prs ! k) \<in> set (birds ai)"
  proof (intro allI impI)
    fix k assume "k < length ?prs"
    then have "?prs ! k \<in> set ?prs" by (rule nth_mem)
    then have "?prs ! k \<in> set (zip (birds ai) fitness_scores)" by simp
    then show "fst (?prs ! k) \<in> set (birds ai)"
      by (metis prod.collapse set_zip_leftD)
  qed
  have valid: "\<forall>k\<in>set ?js. brain_at h (brain (fst (?prs ! k))) \<noteq> None"
    using mem wf by auto
  have ok0: "new_birds_ok h h []" by (simp add: new_birds_ok_def)
  from elites_loop_inv[OF e heap_ext_refl ok0 valid] have el:
    "heap_ext h h1" "new_birds_ok h h1 nb" "length nb = min 3 (length ?prs)"
    "\<forall>k<length ?js. brain_at h1 (brain (nb ! k)) = brain_at h (brain (fst (?prs ! (?js ! k))))"
    by simp_all
  from fill_loop_inv[OF f el(1) el(2)] have fl:
    "heap_ext h1 h'" "new_birds_ok h h' nb'" "take (length nb) nb' = nb"
    by blast+
  have inb: "i < length nb" using i el(3) by simp
  have len: "i < length nb'"
    using fl(3) inb by (metis length_take min_less_iff_conj)
  have same: "nb' ! i = nb ! i"
    using fl(3) inb by (metis nth_take)
  have c1: "brain_at h1 (brain (nb ! i)) = brain_at h (brain (fst (?prs ! i)))"
    using el(4) i by simp
  have "i \<in> set ?js" using i by simp
  with valid have "brain_at h (brain (fst (?prs ! i))) \<noteq> None" by blast
  then obtain v where v: "brain_at h (brain (fst (?prs ! i))) = Some v" by blast
  have c2: "brain_at h' (brain (nb' ! i)) = Some v"
    using heap_ext_brain_at[OF fl(1)] c1 v same by simp
  have fr: "fresh_brain h h' (brain (nb' ! i))"
    using fl(2) len by (simp add: new_birds_ok_def)
  have dis: "\<forall>j<length nb'. j \<noteq> i \<longrightarrow>
               brain (nb' ! j) \<noteq> brain (nb' ! i)
               \<and> fst (dicts h' ! brain (nb' ! j)) \<noteq> fst (dicts h' ! brain (nb' ! i))"
  proof (intro allI impI)
    fix j assume j: "j < length nb'" "j \<noteq> i"
    from fl(2) have d1: "distinct (map brain nb')"
      and d2: "distinct (map (\<lambda>b. fst (dicts h' ! brain b)) nb')"
      by (simp_all add: new_birds_ok_def)
    have "brain (nb' ! j) \<noteq> brain (nb' ! i)"
      using nth_eq_iff_index_eq[OF d1, of j i] j len by simp
    moreover have "fst (dicts h' ! brain (nb' ! j)) \<noteq> fst (dicts h' ! brain (nb' ! i))"
      using nth_eq_iff_index_eq[OF d2, of j i] j len by simp
    ultimately show "brain (nb' ! j) \<noteq> brain (nb' ! i)
               \<and> fst (dicts h' ! brain (nb' ! j)) \<noteq> fst (dicts h' ! brain (nb' ! i))"
      by simp
  qed
  have rank: "\<forall>j. i \<le> j \<and> j < length ?prs \<longrightarrow> snd (?prs ! j) \<le> snd (?prs ! i)"
    using sort_desc_ranked[of i _ "zip (birds ai) fitness_scores"] by simp
  have imem: "fst (?prs ! i) \<in> set (birds ai)" using mem i by simp
  show ?thesis
    using len c2 v imem rank fr dis heap_ext_trans[OF el(1) fl(1)]
    by (simp add: ai')
qed

lemma create_next_generation_returns:
  assumes "zip (birds ai) fitness_scores \<noteq> [] \<or> population_size ai = 0"
  shows "\<exists>ai' h' g'. create_next_generation ai fitness_scores h g = Inr (ai', h', g')"
proof -
  let ?prs = "sort_desc (zip (birds ai) fitness_scores)"
  obtain nb h1 g1 where e: "elites_loop ?prs [0..<min 3 (length ?prs)] [] h g = (nb, h1, g1)"
    by (cases "elites_loop ?prs [0..<min 3 (length ?prs)] [] h g") auto
  have "?prs \<noteq> [] \<or> population_size ai \<le> length nb"
    using assms by auto
  from fill_loop_length[OF this, of h1 g1] obtain nb' h' g' where
    "fill_loop (population_size ai) ?prs nb h1 g1 = Inr (nb', h', g')" by blast
  then have "create_next_generation ai fitness_scores h g = Inr (ai\<lparr>birds := nb'\<rparr>, h', g')"
    using e by (simp add: create_next_generation_def Let_def)
  then show ?thesis by blast
qed

lemma sort4: "sort_desc [(a, 1), (b, 5), (c, 3), (d, 4::real)] = [(b, 5), (d, 4), (c, 3), (a, 1)]"
  by (simp add: sort_desc_def)

theorem elites_copied_verbatim_witness:
  "\<exists>ai' h' g'.
     create_next_generation
       \<lparr>population_size = 4, generation = 1, best_score = 0,
         birds = [\<lparr>bird_x = 100, bird_y = 590, velocity = 9, alive = False, score = 1,
                    fitness = 1, brain = 0\<rparr>,
                  \<lparr>bird_x = 100, bird_y = 300, velocity = 2, alive = False, score = 5,
                    fitness = 5, brain = 1\<rparr>,
                  \<lparr>bird_x = 100, bird_y = 200, velocity = 1, alive = False, score = 3,
                    fitness = 3, brain = 2\<rparr>,
                  \<lparr>bird_x = 100, bird_y = 250, velocity = 3, alive = False, score = 4,
                    fitness = 4, brain = 3\<rparr>],
         pipes = []\<rparr>
       [1, 5, 3, 4]
       \<lparr>dicts = [(0, 0), (1, 2), (2, -1), (3, 1)],
         lists = [[0, 0, 0, 0], [1, -1, 2, 3], [1, 1, 1, 1], [-2, 0, 2, 0]]\<rparr>
       \<lparr>floats = sconst (1/10), ints = sconst 0\<rparr> = Inr (ai', h', g')
     \<and> 0 < length (birds ai')
     \<and> brain_at h' (brain (birds ai' ! 0)) = Some ([1, -1, 2, 3], 2)
     \<and> fresh_brain \<lparr>dicts = [(0, 0), (1, 2), (2, -1), (3, 1)],
                      lists = [[0, 0, 0, 0], [1, -1, 2, 3], [1, 1, 1, 1], [-2, 0, 2, 0]]\<rparr>
          h' (brain (birds ai' ! 0))"
proof -
  let ?ai = "\<lparr>population_size = 4, generation = 1, best_score = 0,
         birds = [\<lparr>bird_x = 100, bird_y = 590, velocity = 9, alive = False, score = 1,
                    fitness = 1, brain = 0\<rparr>,
                  \<lparr>bird_x = 100, bird_y = 300, velocity = 2, alive = False, score = 5,
                    fitness = 5, brain = 1\<rparr>,
                  \<lparr>bird_x = 100, bird_y = 200, velocity = 1, alive = False, score = 3,
                    fitness = 3, brain = 2\<rparr>,
                  \<lparr>bird_x = 100, bird_y = 250, velocity = 3, alive = False, score = 4,
                    fitness = 4, brain = 3\<rparr>],
         pipes = []\<rparr>"
  let ?fs = "[1, 5, 3, 4::real]"
  let ?h = "\<lparr>dicts = [(0, 0), (1, 2), (2, -1), (3, 1)],
         lists = [[0, 0, 0, 0], [1, -1, 2, 3], [1, 1, 1, 1], [-2, 0, 2, 0]]\<rparr>"
  let ?g = "\<lparr>floats = sconst (1/10), ints = sconst 0\<rparr>"
  have "zip (birds ?ai) ?fs \<noteq> [] \<or> population_size ?ai = 0" by simp
  from create_next_generation_returns[OF this, of ?h ?g] obtain ai' h' g' where
    run: "create_next_generation ?ai ?fs ?h ?g = Inr (ai', h', g')" by blast
  have wf: "\<forall>b\<in>set (birds ?ai). brain_at ?h (brain b) \<noteq> None"
    by (simp add: brain_at_def)
  have i: "0 < min 3 (length (sort_desc (zip (birds ?ai) ?fs)))"
    by simp
  have top: "brain_at ?h (brain (fst (sort_desc (zip (birds ?ai) ?fs) ! 0)))
               = Some ([1, -1, 2, 3], 2)"
    by (simp add: sort4 brain_at_def)
  from elites_copied_verbatim[OF run wf i] top
  have "0 < length (birds ai')
        \<and> brain_at h' (brain (birds ai' ! 0)) = Some ([1, -1, 2, 3], 2)
        \<and> fresh_brain ?h h' (brain (birds ai' ! 0))"
    by simp
  with run show ?thesis by blast
qed

section \<open>The simulation loop and the fitness\<close>

declare frames_loop.simps [simp del]

lemma collide_loop_cases:
  "collide_loop ps k b = b
   \<or> collide_loop ps k b = b\<lparr>alive := False, fitness := real_of_int (score b) + real k * 0.1\<rparr>"
  by (induction ps) auto

lemma bird_frame_cases:
  assumes "bird_frame h ps k b = Inr b'" and "alive b"
  shows "brain b' = brain b
         \<and> ((alive b' \<and> score b' = score b + 1 \<and> fitness b' = fitness b)
            \<or> (\<not> alive b' \<and> score b' = score b
                \<and> fitness b' = real_of_int (score b) + real k * 0.1))"
proof -
  from assms(1) obtain decision where d: "Bird_think h b ps = Inr decision"
    by (auto simp: bird_frame_def split: sum.splits)
  define b2 where "b2 = Bird_update (if decision then Bird_flap b else b)"
  have f2: "score b2 = score b" "fitness b2 = fitness b" "brain b2 = brain b"
    by (simp_all add: b2_def Bird_update_def Bird_flap_def Let_def)
  have r: "b' = (if \<not> alive b2
                then b2\<lparr>fitness := real_of_int (score b2) + real k * 0.1\<rparr>
                else (let b3 = collide_loop ps k b2
                      in if alive b3 then b3\<lparr>score := score b3 + 1\<rparr> else b3))"
    using assms(1) d by (simp add: bird_frame_def Let_def b2_def split: if_splits)
  show ?thesis
  proof (cases "alive b2")
    case False
    then show ?thesis using r f2 by simp
  next
    case True
    from collide_loop_cases[of ps k b2] show ?thesis
    proof
      assume "collide_loop ps k b2 = b2"
      then show ?thesis using r f2 True by (simp add: Let_def)
    next
      assume "collide_loop ps k b2
                = b2\<lparr>alive := False, fitness := real_of_int (score b2) + real k * 0.1\<rparr>"
      then show ?thesis using r f2 True by (simp add: Let_def)
    qed
  qed
qed

lemma birds_loop_nth:
  assumes "birds_loop h ps k bs = Inr bs'"
  shows "length bs' = length bs
         \<and> (\<forall>i<length bs. (alive (bs ! i) \<longrightarrow> bird_frame h ps k (bs ! i) = Inr (bs' ! i))
                           \<and> (\<not> alive (bs ! i) \<longrightarrow> bs' ! i = bs ! i))"
  using assms
proof (induction bs arbitrary: bs')
  case Nil
  then show ?case by simp
next
  case (Cons b bs)
  from Cons.prems obtain c cs where
    c: "(if alive b then bird_frame h ps k b else Inr b) = Inr c"
    and cs: "birds_loop h ps k bs = Inr cs" and bs': "bs' = c # cs"
    by (auto split: sum.splits)
  from Cons.IH[OF cs] have ih: "length cs = length bs"
    "\<forall>i<length bs. (alive (bs ! i) \<longrightarrow> bird_frame h ps k (bs ! i) = Inr (cs ! i))
                     \<and> (\<not> alive (bs ! i) \<longrightarrow> cs ! i = bs ! i)"
    by blast+
  show ?case
  proof (intro conjI allI impI)
    show "length bs' = length (b # bs)" using ih(1) bs' by simp
  next
    fix i assume "i < length (b # bs)" "alive ((b # bs) ! i)"
    then show "bird_frame h ps k ((b # bs) ! i) = Inr (bs' ! i)"
      using c ih(2) bs' by (cases i) (auto split: if_splits)
  next
    fix i assume "i < length (b # bs)" "\<not> alive ((b # bs) ! i)"
    then show "bs' ! i = (b # bs) ! i"
      using c ih(2) bs' by (cases i) (auto split: if_splits)
  qed
qed

lemma frames_inv_step:
  assumes "frames_inv k b"
    and "(alive b \<longrightarrow> bird_frame h ps k b = Inr b') \<and> (\<not> alive b \<longrightarrow> b' = b)"
  shows "frames_inv (Suc k) b'"
proof (cases "alive b")
  case False
  with assms have "b' = b" by simp
  moreover from assms(1) False obtain d where
    "d < k" "score b = int d" "fitness b = real_of_int (score b) + real d * 0.1"
    by (auto simp: frames_inv_def)
  ultimately show ?thesis using False
    by (auto simp: frames_inv_def intro!: exI[of _ d])
next
  case True
  with assms have fr: "bird_frame h ps k b = Inr b'" by simp
  from assms(1) True have s: "score b = int k" "fitness b = 0"
    by (simp_all add: frames_inv_def)
  from bird_frame_cases[OF fr True] s show ?thesis
    by (auto simp: frames_inv_def intro!: exI[of _ k])
qed

lemma birds_loop_inv:
  assumes "birds_loop h ps k bs = Inr bs'" and "\<forall>b\<in>set bs. frames_inv k b"
  shows "\<forall>b\<in>set bs'. frames_inv (Suc k) b"
proof
  fix b' assume "b' \<in> set bs'"
  then obtain i where i: "i < length bs'" "b' = bs' ! i"
    by (auto simp: in_set_conv_nth)
  note n = birds_loop_nth[OF assms(1)]
  from i n have il: "i < length bs" by simp
  then have "frames_inv k (bs ! i)" using assms(2) by simp
  from frames_inv_step[OF this, of h ps b'] n il i show "frames_inv (Suc k) b'" by simp
qed

lemma frames_loop_inv:
  assumes "frames_loop quit h k bs ps g = Inr (Completed, bs', ps', k', g')"
    and "\<forall>b\<in>set bs. frames_inv k b" and "k \<le> max_frames"
  shows "(\<forall>b\<in>set bs'. frames_inv k' b) \<and> length bs' = length bs \<and> k' \<le> max_frames
         \<and> (k' = max_frames \<or> filter alive bs' = [])"
  using assms
proof (induction quit h k bs ps g rule: frames_loop.induct)
  case (1 quit h k bs ps g)
  show ?case
  proof (cases "k < max_frames")
    case False
    with "1.prems" show ?thesis by (simp add: frames_loop.simps)
  next
    case True
    note lt = True
    show ?thesis
    proof (cases "quit k")
      case True
      with lt "1.prems"(1) show ?thesis by (simp add: frames_loop.simps)
    next
      case False
      note nq = False
      show ?thesis
      proof (cases "filter alive bs = []")
        case True
        with lt nq "1.prems" show ?thesis by (simp add: frames_loop.simps)
      next
        case False
        obtain ps1 g1 where p: "pipes_loop ps g = (ps1, g1)" by (cases "pipes_loop ps g")
        from "1.prems"(1) lt nq False p obtain bs1 where
          b: "birds_loop h ps1 k bs = Inr bs1"
          and rec: "frames_loop quit h (k + 1) bs1 ps1 g1 = Inr (Completed, bs', ps', k', g')"
          by (subst (asm) frames_loop.simps) (auto split: sum.splits)
        have inv1: "\<forall>b\<in>set bs1. frames_inv (k + 1) b"
          using birds_loop_inv[OF b "1.prems"(2)] by simp
        have le: "k + 1 \<le> max_frames" using lt by simp
        from "1.IH"[OF lt nq False p[symmetric] b rec inv1 le]
        show ?thesis using birds_loop_nth[OF b] by simp
      qed
    qed
  qed
qed

lemma bird_frame_total:
  assumes "ps \<noteq> []" and "4 \<le> length (lists h ! fst (dicts h ! brain b))"
  shows "\<exists>b'. bird_frame h ps k b = Inr b'"
proof -
  from Bird_think_total[OF assms] obtain d where "Bird_think h b ps = Inr d" by blast
  then show ?thesis by (simp add: bird_frame_def Let_def)
qed

lemma birds_loop_total:
  assumes "ps \<noteq> []" and "\<forall>b\<in>set bs. 4 \<le> length (lists h ! fst (dicts h ! brain b))"
  shows "\<exists>bs'. birds_loop h ps k bs = Inr bs'"
  using assms(2)
proof (induction bs)
  case Nil
  then show ?case by simp
next
  case (Cons b bs)
  from Cons obtain cs where cs: "birds_loop h ps k bs = Inr cs" by auto
  from bird_frame_total[OF assms(1), of h b k] Cons.prems obtain c where
    "bird_frame h ps k b = Inr c" by auto
  then show ?case using cs by simp
qed

lemma birds_loop_brain:
  assumes "birds_loop h ps k bs = Inr bs'"
  shows "map brain bs' = map brain bs"
proof (rule nth_equalityI)
  note n = birds_loop_nth[OF assms]
  show "length (map brain bs') = length (map brain bs)" using n by simp
  fix i assume "i < length (map brain bs')"
  then have i: "i < length bs" using n by simp
  have "brain (bs' ! i) = brain (bs ! i)"
  proof (cases "alive (bs ! i)")
    case True
    with n i have "bird_frame h ps k (bs ! i) = Inr (bs' ! i)" by simp
    from bird_frame_cases[OF this True] show ?thesis by simp
  next
    case False
    with n i show ?thesis by simp
  qed
  then show "map brain bs' ! i = map brain bs ! i" using i n by simp
qed

lemma frames_loop_total:
  assumes "ps \<noteq> []" and "\<forall>b\<in>set bs. 4 \<le> length (lists h ! fst (dicts h ! brain b))"
    and "\<forall>k. \<not> quit k"
  shows "\<exists>bs' ps' k' g'. frames_loop quit h k bs ps g = Inr (Completed, bs', ps', k', g')"
  using assms
proof (induction quit h k bs ps g rule: frames_loop.induct)
  case (1 quit h k bs ps g)
  have nq: "\<not> quit k" using "1.prems"(3) by simp
  show ?case
  proof (cases "k < max_frames \<and> filter alive bs \<noteq> []")
    case False
    then show ?thesis using nq by (auto simp: frames_loop.simps)
  next
    case True
    then have lt: "k < max_frames" and al: "filter alive bs \<noteq> []" by simp_all
    obtain ps1 g1 where p: "pipes_loop ps g = (ps1, g1)" by (cases "pipes_loop ps g")
    have ne1: "ps1 \<noteq> []"
      using pipes_loop_result_length[OF p] "1.prems"(1) by auto
    from birds_loop_total[OF ne1 "1.prems"(2)] obtain bs1 where
      b: "birds_loop h ps1 k bs = Inr bs1" by blast
    have br: "\<forall>b\<in>set bs1. 4 \<le> length (lists h ! fst (dicts h ! brain b))"
    proof
      fix c assume "c \<in> set bs1"
      then have "brain c \<in> set (map brain bs1)" by simp
      then have "brain c \<in> set (map brain bs)" using birds_loop_brain[OF b] by simp
      then show "4 \<le> length (lists h ! fst (dicts h ! brain c))"
        using "1.prems"(2) by auto
    qed
    from "1.IH"[OF lt nq al p[symmetric] b ne1 br "1.prems"(3)]
    show ?thesis using lt nq al p b by (subst frames_loop.simps) simp
  qed
qed

lemma run_generation_total:
  assumes "\<forall>b\<in>set (birds ai). 4 \<le> length (lists h ! fst (dicts h ! brain b))"
    and "\<forall>k. \<not> quit k"
  shows "\<exists>fits ai' g'. run_generation quit ai h g = Inr (Some fits, ai', g')"
proof -
  let ?ai1 = "ai\<lparr>birds := map reset_bird (birds ai)\<rparr>"
  obtain ai2 g1 where c: "create_pipes ?ai1 g = (ai2, g1)" by (cases "create_pipes ?ai1 g")
  have bs2: "birds ai2 = map reset_bird (birds ai)"
    using c by (auto simp: create_pipes_def split: prod.splits)
  have ne: "pipes ai2 \<noteq> []"
    using create_pipes_length[of ?ai1 g] c by auto
  have br: "\<forall>b\<in>set (birds ai2). 4 \<le> length (lists h ! fst (dicts h ! brain b))"
    using assms(1) by (auto simp: bs2 reset_bird_def)
  from frames_loop_total[OF ne br assms(2), of 0 g1] obtain bs' ps' k' g' where
    "frames_loop quit h 0 (birds ai2) (pipes ai2) g1 = Inr (Completed, bs', ps', k', g')"
    by blast
  then show ?thesis using c by (simp add: run_generation_def Let_def)
qed

lemma run_generation_fitness:
  assumes "run_generation quit ai h g = Inr (Some fits, ai', g')"
  shows "length (birds ai') = length (birds ai) \<and> fits = map fitness (birds ai')
         \<and> (\<forall>b\<in>set (birds ai'). \<exists>d\<le>max_frames. score b = int d
               \<and> fitness b = real_of_int (score b) + real d * 0.1
               \<and> (alive b \<longrightarrow> d = max_frames))"
proof -
  let ?ai1 = "ai\<lparr>birds := map reset_bird (birds ai)\<rparr>"
  obtain ai2 g1 where c: "create_pipes ?ai1 g = (ai2, g1)" by (cases "create_pipes ?ai1 g")
  have bs2: "birds ai2 = map reset_bird (birds ai)"
    using c by (auto simp: create_pipes_def split: prod.splits)
  from assms c obtain bs ps k g2 where
    fl: "frames_loop quit h 0 (birds ai2) (pipes ai2) g1 = Inr (Completed, bs, ps, k, g2)"
    and fits: "fits = map fitness (map (final_fitness k) bs)"
    and ai': "ai' = ai2\<lparr>birds := map (final_fitness k) bs, pipes := ps\<rparr>"
    by (auto simp: run_generation_def Let_def split: sum.splits outcome.splits)
  have inv0: "\<forall>b\<in>set (birds ai2). frames_inv 0 b"
    by (auto simp: bs2 reset_bird_def frames_inv_def)
  from frames_loop_inv[OF fl inv0] have inv:
    "\<forall>b\<in>set bs. frames_inv k b" "length bs = length (birds ai2)" "k \<le> max_frames"
    "k = max_frames \<or> filter alive bs = []"
    by simp_all
  have each: "\<exists>d\<le>max_frames. score (final_fitness k b) = int d
               \<and> fitness (final_fitness k b)
                   = real_of_int (score (final_fitness k b)) + real d * 0.1
               \<and> (alive (final_fitness k b) \<longrightarrow> d = max_frames)" if b: "b \<in> set bs" for b
  proof (cases "alive b")
    case True
    with b have "filter alive bs \<noteq> []" by (auto simp: filter_empty_conv)
    with inv(4) have k: "k = max_frames" by simp
    from inv(1) b True have "score b = int k" by (simp add: frames_inv_def)
    with True k show ?thesis
      by (intro exI[of _ max_frames]) (simp add: final_fitness_def)
  next
    case False
    from inv(1) b have "frames_inv k b" by blast
    with False have "\<exists>d<k. score b = int d
                       \<and> fitness b = real_of_int (score b) + real d * 0.1"
      by (simp only: frames_inv_def if_False)
    then obtain d where "d < k" "score b = int d"
      "fitness b = real_of_int (score b) + real d * 0.1"
      by blast
    with False inv(3) show ?thesis
      by (intro exI[of _ d]) (simp add: final_fitness_def)
  qed
  show ?thesis
    using each inv(2) by (auto simp: ai' fits bs2)
qed

text \<open>
  C4. When a generation runs to its end, every bird's fitness is its score plus a tenth
  of the number \<open>d\<close> of frames it lived through, where \<open>d\<close> is the frame in which it died
  or, for a bird still alive, the final frame count, which is then the cap of \<open>1000\<close>; the
  list returned holds these values. The value is assigned once: in a frame a dead bird
  is left as it is, a bird that stays alive keeps the fitness it had, and a bird that
  dies in frame \<open>k\<close> gets its score plus a tenth of \<open>k\<close>; the pass after the loop leaves the
  dead birds as they are and gives a live bird its score plus a tenth of the final frame
  count. With equal scores more frames give a strictly higher fitness, and the fitness
  does not decrease when score and frames do not.
\<close>

theorem fitness_evaluated_once:
  "(run_generation quit ai h g = Inr (Some fits, ai', g') \<longrightarrow>
      length (birds ai') = length (birds ai) \<and> fits = map fitness (birds ai')
      \<and> (\<forall>b\<in>set (birds ai'). \<exists>d\<le>max_frames. score b = int d
            \<and> fitness b = real_of_int (score b) + real d * 0.1
            \<and> (alive b \<longrightarrow> d = max_frames)))
   \<and> (birds_loop h ps k bs = Inr bs' \<longrightarrow>
        (\<forall>i<length bs.
           (\<not> alive (bs ! i) \<longrightarrow> bs' ! i = bs ! i)
           \<and> (alive (bs ! i) \<longrightarrow>
                (alive (bs' ! i) \<and> fitness (bs' ! i) = fitness (bs ! i))
                \<or> (\<not> alive (bs' ! i)
                    \<and> fitness (bs' ! i) = real_of_int (score (bs' ! i)) + real k * 0.1))))
   \<and> (\<not> alive b \<longrightarrow> final_fitness k b = b)
   \<and> (alive b \<longrightarrow> fitness (final_fitness k b) = real_of_int (score b) + real k * 0.1)
   \<and> (alive b \<and> alive c \<and> score b = score c \<and> k < k'
        \<longrightarrow> fitness (final_fitness k b) < fitness (final_fitness k' c))
   \<and> (alive b \<and> alive c \<and> score b \<le> score c \<and> k \<le> k'
        \<longrightarrow> fitness (final_fitness k b) \<le> fitness (final_fitness k' c))"
proof -
  have run: "run_generation quit ai h g = Inr (Some fits, ai', g') \<longrightarrow>
      length (birds ai') = length (birds ai) \<and> fits = map fitness (birds ai')
      \<and> (\<forall>b\<in>set (birds ai'). \<exists>d\<le>max_frames. score b = int d
            \<and> fitness b = real_of_int (score b) + real d * 0.1
            \<and> (alive b \<longrightarrow> d = max_frames))"
    using run_generation_fitness by blast
  have frame: "birds_loop h ps k bs = Inr bs' \<longrightarrow>
        (\<forall>i<length bs.
           (\<not> alive (bs ! i) \<longrightarrow> bs' ! i = bs ! i)
           \<and> (alive (bs ! i) \<longrightarrow>
                (alive (bs' ! i) \<and> fitness (bs' ! i) = fitness (bs ! i))
                \<or> (\<not> alive (bs' ! i)
                    \<and> fitness (bs' ! i) = real_of_int (score (bs' ! i)) + real k * 0.1)))"
  proof (intro impI allI conjI)
    fix i assume l: "birds_loop h ps k bs = Inr bs'" and i: "i < length bs"
    note n = birds_loop_nth[OF l]
    show "bs' ! i = bs ! i" if "\<not> alive (bs ! i)" using n i that by simp
    show "(alive (bs' ! i) \<and> fitness (bs' ! i) = fitness (bs ! i))
          \<or> (\<not> alive (bs' ! i)
              \<and> fitness (bs' ! i) = real_of_int (score (bs' ! i)) + real k * 0.1)"
      if a: "alive (bs ! i)"
    proof -
      from n i a have "bird_frame h ps k (bs ! i) = Inr (bs' ! i)" by simp
      from bird_frame_cases[OF this a] show ?thesis by auto
    qed
  qed
  have dead: "\<not> alive b \<longrightarrow> final_fitness k b = b"
    by (simp add: final_fitness_def)
  have live: "alive b \<longrightarrow> fitness (final_fitness k b) = real_of_int (score b) + real k * 0.1"
    by (simp add: final_fitness_def)
  have strict: "alive b \<and> alive c \<and> score b = score c \<and> k < k'
        \<longrightarrow> fitness (final_fitness k b) < fitness (final_fitness k' c)"
    by (simp add: final_fitness_def)
  have mono: "alive b \<and> alive c \<and> score b \<le> score c \<and> k \<le> k'
        \<longrightarrow> fitness (final_fitness k b) \<le> fitness (final_fitness k' c)"
    by (auto simp add: final_fitness_def)
  from run frame dead live strict mono show ?thesis by blast
qed

text \<open>
  One frame over three birds: the dead one is left alone, the one at the lower edge dies
  and gets its fitness, the third scores.
\<close>

lemma one_frame:
  "birds_loop \<lparr>dicts = [(0, 0)], lists = [[0, 0, 0, 0]]\<rparr>
     [\<lparr>pipe_x = 400, width = 80, top_height = 200, bottom_height = 400\<rparr>] 5
     [\<lparr>bird_x = 100, bird_y = 590, velocity = 9, alive = False, score = 2, fitness = 2.2,
        brain = 0\<rparr>,
      \<lparr>bird_x = 100, bird_y = 579.9, velocity = 0.1, alive = True, score = 5, fitness = 0,
        brain = 0\<rparr>,
      \<lparr>bird_x = 100, bird_y = 300, velocity = 0, alive = True, score = 5, fitness = 0,
        brain = 0\<rparr>]
   = Inr [\<lparr>bird_x = 100, bird_y = 590, velocity = 9, alive = False, score = 2, fitness = 2.2,
            brain = 0\<rparr>,
          \<lparr>bird_x = 100, bird_y = 580.4, velocity = 0.5, alive = False, score = 5,
            fitness = 5.5, brain = 0\<rparr>,
          \<lparr>bird_x = 100, bird_y = 300.4, velocity = 0.4, alive = True, score = 6, fitness = 0,
            brain = 0\<rparr>]"
  by (simp add: bird_frame_def Bird_think_def first_pipe_def get_bias_def Let_def upt_rec
        Bird_update_def Bird_flap_def Pipe_collides_with_def)

text \<open>
  A generation of one bird with a brain of zeros: the bird never flaps, falls through
  \<open>y = 580\<close> in frame \<open>36\<close>, having scored in the \<open>36\<close> frames before, and its fitness is
  \<open>36 + 3.6\<close>.
\<close>

lemma zero_run:
  "map_sum id fst
     (run_generation (\<lambda>_. False)
        \<lparr>population_size = 1, generation = 1, best_score = 0,
          birds = [\<lparr>bird_x = 100, bird_y = 300, velocity = 0, alive = True, score = 0,
                     fitness = 0, brain = 0\<rparr>],
          pipes = []\<rparr>
        \<lparr>dicts = [(0, 0)], lists = [[0, 0, 0, 0]]\<rparr>
        \<lparr>floats = sconst (1/2), ints = sconst 0\<rparr>)
   = Inr (Some [39.6])"
  by (simp add: run_generation_def create_pipes_def Pipe_init_def Pipe_reset_height_def
        rnd_uniform_def rnd_random_def reset_bird_def frames_loop.simps max_frames_def
        Pipe_update_def
        bird_frame_def Bird_think_def first_pipe_def get_bias_def Let_def upt_rec
        Bird_update_def Bird_flap_def Pipe_collides_with_def final_fitness_def)

theorem fitness_evaluated_once_witness:
  "(\<exists>ai' g'.
      run_generation (\<lambda>_. False)
        \<lparr>population_size = 1, generation = 1, best_score = 0,
          birds = [\<lparr>bird_x = 100, bird_y = 300, velocity = 0, alive = True, score = 0,
                     fitness = 0, brain = 0\<rparr>],
          pipes = []\<rparr>
        \<lparr>dicts = [(0, 0)], lists = [[0, 0, 0, 0]]\<rparr>
        \<lparr>floats = sconst (1/2), ints = sconst 0\<rparr> = Inr (Some [39.6], ai', g')
      \<and> length (birds ai') = 1
      \<and> [39.6] = map fitness (birds ai')
      \<and> (\<forall>b\<in>set (birds ai'). \<exists>d\<le>max_frames. score b = int d
            \<and> fitness b = real_of_int (score b) + real d * 0.1
            \<and> (alive b \<longrightarrow> d = max_frames)))
   \<and> final_fitness 5 \<lparr>bird_x = 100, bird_y = 590, velocity = 9, alive = False, score = 2,
                        fitness = 2.2, brain = 0\<rparr>
       = \<lparr>bird_x = 100, bird_y = 590, velocity = 9, alive = False, score = 2,
           fitness = 2.2, brain = 0\<rparr>
   \<and> fitness (final_fitness 5 \<lparr>bird_x = 100, bird_y = 300, velocity = 0, alive = True,
                                 score = 5, fitness = 0, brain = 0\<rparr>) = 5.5
   \<and> fitness (final_fitness 5 \<lparr>bird_x = 100, bird_y = 300, velocity = 0, alive = True,
                                 score = 5, fitness = 0, brain = 0\<rparr>)
       < fitness (final_fitness 6 \<lparr>bird_x = 100, bird_y = 300, velocity = 0, alive = True,
                                   score = 5, fitness = 0, brain = 0\<rparr>)
   \<and> fitness (final_fitness 5 \<lparr>bird_x = 100, bird_y = 300, velocity = 0, alive = True,
                                 score = 5, fitness = 0, brain = 0\<rparr>)
       \<le> fitness (final_fitness 5 \<lparr>bird_x = 100, bird_y = 300, velocity = 0, alive = True,
                                   score = 6, fitness = 0, brain = 0\<rparr>)"
proof -
  let ?ai = "\<lparr>population_size = 1, generation = 1, best_score = 0,
          birds = [\<lparr>bird_x = 100, bird_y = 300, velocity = 0, alive = True, score = 0,
                     fitness = 0, brain = 0\<rparr>],
          pipes = []\<rparr>"
  let ?h = "\<lparr>dicts = [(0, 0)], lists = [[0, 0, 0, 0]]\<rparr>"
  let ?g = "\<lparr>floats = sconst (1/2), ints = sconst 0\<rparr>"
  let ?dead = "\<lparr>bird_x = 100, bird_y = 590, velocity = 9, alive = False, score = 2,
                fitness = 2.2, brain = 0\<rparr>"
  let ?live = "\<lparr>bird_x = 100, bird_y = 300, velocity = 0, alive = True,
                score = 5, fitness = 0, brain = 0\<rparr>"
  let ?live6 = "\<lparr>bird_x = 100, bird_y = 300, velocity = 0, alive = True,
                score = 6, fitness = 0, brain = 0\<rparr>"
  from zero_run obtain ai' g' where
    run: "run_generation (\<lambda>_. False) ?ai ?h ?g = Inr (Some [39.6], ai', g')"
    by (cases "run_generation (\<lambda>_. False) ?ai ?h ?g") auto
  note t1 = fitness_evaluated_once
              [where quit = "\<lambda>_. False" and ai = ?ai and h = ?h and g = ?g
                 and fits = "[39.6]" and ai' = ai' and g' = g' and k = 5 and k' = 6
                 and b = ?live and c = ?live]
  note t2 = fitness_evaluated_once [where k = 5 and k' = 5 and b = ?live and c = ?live6]
  note t3 = fitness_evaluated_once [where k = 5 and b = ?dead]
  have r: "length (birds ai') = 1 \<and> [39.6] = map fitness (birds ai')
           \<and> (\<forall>b\<in>set (birds ai'). \<exists>d\<le>max_frames. score b = int d
            \<and> fitness b = real_of_int (score b) + real d * 0.1
            \<and> (alive b \<longrightarrow> d = max_frames))"
    using t1 run by simp
  have d: "final_fitness 5 ?dead = ?dead"
    using t3 by simp
  have v: "fitness (final_fitness 5 ?live) = 5.5"
    using t1 by simp
  have s: "fitness (final_fitness 5 ?live) < fitness (final_fitness 6 ?live)"
    using t1 by simp
  have m: "fitness (final_fitness 5 ?live) \<le> fitness (final_fitness 5 ?live6)"
    using t2 by simp
  have w: "\<exists>ai' g'.
      run_generation (\<lambda>_. False) ?ai ?h ?g = Inr (Some [39.6], ai', g')
      \<and> length (birds ai') = 1
      \<and> [39.6] = map fitness (birds ai')
      \<and> (\<forall>b\<in>set (birds ai'). \<exists>d\<le>max_frames. score b = int d
            \<and> fitness b = real_of_int (score b) + real d * 0.1
            \<and> (alive b \<longrightarrow> d = max_frames))"
    by (rule exI[of _ ai'], rule exI[of _ g'], rule conjI[OF run r])
  show ?thesis
    by (rule conjI[OF w conjI[OF d conjI[OF v conjI[OF s m]]]])
qed

section \<open>Scoring in the playable game\<close>

text \<open>
  The scoring loop adds one whenever the list holds a pipe whose trailing edge is more
  than five units behind the bird, and nothing records that a pipe has been counted.
\<close>

lemma score_loop_counts:
  assumes "\<exists>p\<in>set ps. PPipe_passed_by p b \<and> pp_x p + pp_width p < pb_x b - 5"
  shows "pb_score (score_loop ps b) = pb_score b + 1"
  using assms by (induction ps) auto

lemma score_loop_no_count:
  assumes "\<forall>p\<in>set ps. \<not> (PPipe_passed_by p b \<and> pp_x p + pp_width p < pb_x b - 5)"
  shows "score_loop ps b = b"
  using assms by (induction ps) auto

text \<open>
  C1 (the code at a failing input). The human's bird is at \<open>x = 100\<close>, the three other
  birds are dead, and the first of four pipes is at \<open>x = 16\<close>: its trailing edge, at \<open>96\<close>,
  is not yet more than five units behind the bird, so it has not been counted. In the
  next frame the pipe is at \<open>14\<close> and the score becomes \<open>1\<close>. In the two frames after
  that the same pipe, now at \<open>12\<close> and at \<open>10\<close>, is counted again: the score is \<open>2\<close> and
  then \<open>3\<close>, although no other pipe has come near the bird.
\<close>

theorem score_counted_again:
  "map_sum id (\<lambda>r. (map pb_score (all_birds (fst r)), map pp_x (game_pipes (fst r)),
                     map pb_alive (all_birds (fst r))))
     (game_frames 1
        \<lparr>game_pipes =
           [\<lparr>pp_x = 16, pp_width = 80, pp_speed = 2, pp_top_height = 210, pp_bottom_height = 390\<rparr>,
            \<lparr>pp_x = 216, pp_width = 80, pp_speed = 2, pp_top_height = 150, pp_bottom_height = 330\<rparr>,
            \<lparr>pp_x = 416, pp_width = 80, pp_speed = 2, pp_top_height = 200, pp_bottom_height = 380\<rparr>,
            \<lparr>pp_x = 616, pp_width = 80, pp_speed = 2, pp_top_height = 250, pp_bottom_height = 430\<rparr>],
          pipe_timer = 0, pipe_spacing = 200, game_over = False, winner = None,
          all_birds =
           [\<lparr>pb_x = 100, pb_y = 300, pb_velocity = 0, pb_alive = True, pb_score = 0,
              pb_is_ai = False, pb_brain = None\<rparr>,
            \<lparr>pb_x = 100, pb_y = 585, pb_velocity = 9, pb_alive = False, pb_score = 0,
              pb_is_ai = True, pb_brain = Some \<lparr>pweights = [1, -1, 1/2, 0], pbias = 1/4\<rparr>\<rparr>,
            \<lparr>pb_x = 100, pb_y = 590, pb_velocity = 9, pb_alive = False, pb_score = 0,
              pb_is_ai = True, pb_brain = Some \<lparr>pweights = [0, 1, -1, 1], pbias = 0\<rparr>\<rparr>,
            \<lparr>pb_x = 100, pb_y = -3, pb_velocity = -6, pb_alive = False, pb_score = 0,
              pb_is_ai = True, pb_brain = Some \<lparr>pweights = [1, 1, 1, 1], pbias = 1/2\<rparr>\<rparr>]\<rparr>
        \<lparr>floats = sconst (1/2), ints = sconst 0\<rparr>)
   = Inr ([1, 0, 0, 0], [14, 214, 414, 614], [True, False, False, False])
   \<and> map_sum id (\<lambda>r. (map pb_score (all_birds (fst r)), map pp_x (game_pipes (fst r)),
                     map pb_alive (all_birds (fst r))))
     (game_frames 2
        \<lparr>game_pipes =
           [\<lparr>pp_x = 16, pp_width = 80, pp_speed = 2, pp_top_height = 210, pp_bottom_height = 390\<rparr>,
            \<lparr>pp_x = 216, pp_width = 80, pp_speed = 2, pp_top_height = 150, pp_bottom_height = 330\<rparr>,
            \<lparr>pp_x = 416, pp_width = 80, pp_speed = 2, pp_top_height = 200, pp_bottom_height = 380\<rparr>,
            \<lparr>pp_x = 616, pp_width = 80, pp_speed = 2, pp_top_height = 250, pp_bottom_height = 430\<rparr>],
          pipe_timer = 0, pipe_spacing = 200, game_over = False, winner = None,
          all_birds =
           [\<lparr>pb_x = 100, pb_y = 300, pb_velocity = 0, pb_alive = True, pb_score = 0,
              pb_is_ai = False, pb_brain = None\<rparr>,
            \<lparr>pb_x = 100, pb_y = 585, pb_velocity = 9, pb_alive = False, pb_score = 0,
              pb_is_ai = True, pb_brain = Some \<lparr>pweights = [1, -1, 1/2, 0], pbias = 1/4\<rparr>\<rparr>,
            \<lparr>pb_x = 100, pb_y = 590, pb_velocity = 9, pb_alive = False, pb_score = 0,
              pb_is_ai = True, pb_brain = Some \<lparr>pweights = [0, 1, -1, 1], pbias = 0\<rparr>\<rparr>,
            \<lparr>pb_x = 100, pb_y = -3, pb_velocity = -6, pb_alive = False, pb_score = 0,
              pb_is_ai = True, pb_brain = Some \<lparr>pweights = [1, 1, 1, 1], pbias = 1/2\<rparr>\<rparr>]\<rparr>
        \<lparr>floats = sconst (1/2), ints = sconst 0\<rparr>)
   = Inr ([2, 0, 0, 0], [12, 212, 412, 612], [True, False, False, False])
   \<and> map_sum id (\<lambda>r. (map pb_score (all_birds (fst r)), map pp_x (game_pipes (fst r)),
                     map pb_alive (all_birds (fst r))))
     (game_frames 3
        \<lparr>game_pipes =
           [\<lparr>pp_x = 16, pp_width = 80, pp_speed = 2, pp_top_height = 210, pp_bottom_height = 390\<rparr>,
            \<lparr>pp_x = 216, pp_width = 80, pp_speed = 2, pp_top_height = 150, pp_bottom_height = 330\<rparr>,
            \<lparr>pp_x = 416, pp_width = 80, pp_speed = 2, pp_top_height = 200, pp_bottom_height = 380\<rparr>,
            \<lparr>pp_x = 616, pp_width = 80, pp_speed = 2, pp_top_height = 250, pp_bottom_height = 430\<rparr>],
          pipe_timer = 0, pipe_spacing = 200, game_over = False, winner = None,
          all_birds =
           [\<lparr>pb_x = 100, pb_y = 300, pb_velocity = 0, pb_alive = True, pb_score = 0,
              pb_is_ai = False, pb_brain = None\<rparr>,
            \<lparr>pb_x = 100, pb_y = 585, pb_velocity = 9, pb_alive = False, pb_score = 0,
              pb_is_ai = True, pb_brain = Some \<lparr>pweights = [1, -1, 1/2, 0], pbias = 1/4\<rparr>\<rparr>,
            \<lparr>pb_x = 100, pb_y = 590, pb_velocity = 9, pb_alive = False, pb_score = 0,
              pb_is_ai = True, pb_brain = Some \<lparr>pweights = [0, 1, -1, 1], pbias = 0\<rparr>\<rparr>,
            \<lparr>pb_x = 100, pb_y = -3, pb_velocity = -6, pb_alive = False, pb_score = 0,
              pb_is_ai = True, pb_brain = Some \<lparr>pweights = [1, 1, 1, 1], pbias = 1/2\<rparr>\<rparr>]\<rparr>
        \<lparr>floats = sconst (1/2), ints = sconst 0\<rparr>)
   = Inr ([3, 0, 0, 0], [10, 210, 410, 610], [True, False, False, False])"
  by (simp add: eval_nat_numeral game_frame_def update_pipes_def PPipe_update_def
        update_birds_def pbird_frame_def PBird_update_def PBird_flap_def
        PPipe_collides_with_def PPipe_passed_by_def Let_def)

end
